theory Spec2Isabelle
  imports Complex_Main "HOL-Library.Log_Nat" "HOL-Library.Multiset"
begin

section \<open>Strings\<close>

text \<open>
  A JavaScript string is a sequence of UTF-16 code units. A code unit is modelled as a
  natural number (the strings of the program hold numbers below 65536), and \<open>units\<close> gives
  the code units of a text written in ASCII.
\<close>

type_synonym jstring = "nat list"

definition units :: "string \<Rightarrow> jstring" where
  "units s = map of_char s"

definition isAscii :: "jstring \<Rightarrow> bool" where
  "isAscii s = list_all (\<lambda>c. c < 128) s"

definition lowerChar :: "nat \<Rightarrow> nat" where
  "lowerChar c = (if 65 \<le> c \<and> c \<le> 90 then c + 32 else c)"

text \<open>
  \<^verbatim>\<open>String.prototype.toLowerCase\<close>. On a string of ASCII characters it turns \<^verbatim>\<open>A\<close>..\<^verbatim>\<open>Z\<close>
  into \<^verbatim>\<open>a\<close>..\<^verbatim>\<open>z\<close> and keeps every other character. On any other string the result is
  given by the case tables of Unicode, which may change the length of the string (U+0130
  becomes the two code units U+0069 U+0307) and look at the neighbours of a character (the
  final sigma). These tables are not part of the program: the lower-casing of strings with
  a character outside ASCII is the parameter \<open>unicodeLower\<close> of the model. The tables map
  \<^verbatim>\<open>A\<close>..\<^verbatim>\<open>Z\<close> to \<^verbatim>\<open>a\<close>..\<^verbatim>\<open>z\<close> in every string, and their one rule that looks at neighbours asks
  whether a neighbour is a letter with a case, not which case it has; so \<open>unicodeLower\<close> is
  given the string with its ASCII letters already in lower case.
\<close>

definition toLowerCase :: "(jstring \<Rightarrow> jstring) \<Rightarrow> jstring \<Rightarrow> jstring" where
  "toLowerCase unicodeLower s =
     (if isAscii s then map lowerChar s else unicodeLower (map lowerChar s))"

text \<open>
  For the examples: the lower-casing of the strings whose characters outside ASCII are
  all U+0130 (304), the capital I with a dot above.
\<close>

definition exampleLower :: "jstring \<Rightarrow> jstring" where
  "exampleLower s = concat (map (\<lambda>c. if c = 304 then [105, 775] else [lowerChar c]) s)"

text \<open>
  \<^verbatim>\<open>String.prototype.indexOf(searchValue, position)\<close>: the position is clamped to the
  length of the string, then the first index \<open>i\<close> at or after it where \<open>searchValue\<close>
  occurs is returned; \<open>None\<close> stands for \<^verbatim>\<open>-1\<close>. An empty \<open>searchValue\<close> occurs at
  every index up to the length of the string.
\<close>

function stringIndexOf :: "jstring \<Rightarrow> jstring \<Rightarrow> nat \<Rightarrow> nat option" where
  "stringIndexOf s searchValue i =
     (if length s < i + length searchValue then None
      else if take (length searchValue) (drop i s) = searchValue then Some i
      else stringIndexOf s searchValue (Suc i))"
  by pat_completeness auto
termination
  by (relation "measure (\<lambda>(s, searchValue, i). Suc (length s) - i)") auto

declare stringIndexOf.simps [simp del]

definition indexOf :: "jstring \<Rightarrow> jstring \<Rightarrow> nat \<Rightarrow> nat option" where
  "indexOf s searchValue position = stringIndexOf s searchValue (min position (length s))"

text \<open>
  \<^verbatim>\<open>String.prototype.substring(start, end)\<close>: both arguments are clamped to the length
  of the string and swapped when \<open>start\<close> is the larger one.
\<close>

definition substring :: "jstring \<Rightarrow> nat \<Rightarrow> nat \<Rightarrow> jstring" where
  "substring s a b =
     (let a' = min a (length s); b' = min b (length s)
      in take (max a' b' - min a' b') (drop (min a' b') s))"

text \<open>\<^verbatim>\<open>String.prototype.trim\<close> removes white space and line terminators at both ends:
  tab, line feed, vertical tab, form feed, carriage return, space, no-break space, U+1680,
  U+2000 to U+200A, the line and paragraph separators U+2028 and U+2029, U+202F, U+205F,
  U+3000 and the byte order mark U+FEFF.\<close>

definition isWhiteSpace :: "nat \<Rightarrow> bool" where
  "isWhiteSpace c =
     (c \<in> {9, 10, 11, 12, 13, 32, 160, 5760, 8232, 8233, 8239, 8287, 12288, 65279}
      \<or> (8192 \<le> c \<and> c \<le> 8202))"

text \<open>The same test on integers, for evaluation: the large code points are then not
  counted up to.\<close>

lemma isWhiteSpace_code [code]:
  "isWhiteSpace c =
     (let i = int c
      in i \<in> {9, 10, 11, 12, 13, 32, 160, 5760, 8232, 8233, 8239, 8287, 12288, 65279}
         \<or> (8192 \<le> i \<and> i \<le> 8202))"
  by (simp add: isWhiteSpace_def Let_def)

definition trim :: "jstring \<Rightarrow> jstring" where
  "trim s = rev (dropWhile isWhiteSpace (rev (dropWhile isWhiteSpace s)))"

text \<open>\<^verbatim>\<open>String.prototype.split(sep)\<close> for a separator of one character: the pieces
  between the separators, empty pieces included; the empty string gives one empty piece.\<close>

function split :: "nat \<Rightarrow> jstring \<Rightarrow> jstring list" where
  "split sep s =
     (case dropWhile (\<lambda>c. c \<noteq> sep) s of
        [] \<Rightarrow> [takeWhile (\<lambda>c. c \<noteq> sep) s]
      | c # rest \<Rightarrow> takeWhile (\<lambda>c. c \<noteq> sep) s # split sep rest)"
  by pat_completeness auto
termination
proof (relation "measure (\<lambda>(sep, s). length s)")
  show "wf (measure (\<lambda>(sep, s). length s))" by simp
next
  fix sep c :: nat and s rest :: jstring
  assume "dropWhile (\<lambda>c. c \<noteq> sep) s = c # rest"
  with length_dropWhile_le [of "\<lambda>c. c \<noteq> sep" s]
  show "((sep, rest), (sep, s)) \<in> measure (\<lambda>(sep, s). length s)" by simp
qed

declare split.simps [simp del]

text \<open>The decimal rendering of a number in a template literal.\<close>

fun showNat :: "nat \<Rightarrow> jstring" where
  "showNat n =
     (if n < 10 then [48 + n]
      else showNat (n div 10) @ [48 + n mod 10])"

declare showNat.simps [simp del]

section \<open>Data model\<close>

record LineRecord =
  lineNumber :: nat
  content :: jstring
  estimatedPage :: nat

record StructuredText =
  fullText :: jstring
  lines :: "LineRecord list"
  totalLines :: nat
  estimatedPages :: nat

record Occurrence =
  o_lineNumber :: nat
  o_estimatedPage :: nat
  o_context :: jstring

section \<open>Occurrence Locator: \<^verbatim>\<open>findSkillOccurrences\<close>\<close>

text \<open>The occurrence pushed by the loop body for a match at \<open>startIndex\<close>
  (lines 58 to 66 of the source).\<close>

definition occurrenceAt :: "LineRecord \<Rightarrow> jstring \<Rightarrow> nat \<Rightarrow> Occurrence" where
  "occurrenceAt line skillLower startIndex =
     (let contextStart = nat (max 0 (int startIndex - 30));
          contextEnd = min (length (content line)) (startIndex + length skillLower + 30);
          context = substring (content line) contextStart contextEnd
      in \<lparr>o_lineNumber = lineNumber line,
          o_estimatedPage = estimatedPage line,
          o_context = context\<rparr>)"

text \<open>
  The \<^verbatim>\<open>while\<close> loop over one line. Nothing in the source bounds the number of its
  iterations, so it is a partial function: \<open>None\<close> means that the loop never exits.
\<close>

partial_function (option) scanLine ::
  "LineRecord \<Rightarrow> jstring \<Rightarrow> jstring \<Rightarrow> nat \<Rightarrow> Occurrence list \<Rightarrow> Occurrence list option" where
  "scanLine line lineContentLower skillLower startIndex occurrences =
     (case indexOf lineContentLower skillLower startIndex of
        None \<Rightarrow> Some occurrences
      | Some startIndex' \<Rightarrow>
          scanLine line lineContentLower skillLower (startIndex' + length skillLower)
            (occurrences @ [occurrenceAt line skillLower startIndex']))"

declare scanLine.simps [code]

text \<open>\<^verbatim>\<open>textData.lines.forEach\<close>: the lines in order, each scanned from index 0.\<close>

fun forEachLine :: "(jstring \<Rightarrow> jstring) \<Rightarrow> LineRecord list \<Rightarrow> jstring \<Rightarrow> Occurrence list \<Rightarrow> Occurrence list option" where
  "forEachLine unicodeLower [] skillLower occurrences = Some occurrences"
| "forEachLine unicodeLower (line # rest) skillLower occurrences =
     (case scanLine line (toLowerCase unicodeLower (content line)) skillLower 0 occurrences of
        None \<Rightarrow> None
      | Some occurrences' \<Rightarrow> forEachLine unicodeLower rest skillLower occurrences')"

definition findSkillOccurrences :: "(jstring \<Rightarrow> jstring) \<Rightarrow> StructuredText \<Rightarrow> jstring \<Rightarrow> Occurrence list option" where
  "findSkillOccurrences unicodeLower textData skill =
     forEachLine unicodeLower (lines textData) (toLowerCase unicodeLower skill) []"

subsection \<open>Facts about \<^verbatim>\<open>indexOf\<close>\<close>

lemma stringIndexOf_Some:
  "stringIndexOf s t i = Some p \<Longrightarrow>
     i \<le> p \<and> p + length t \<le> length s \<and> take (length t) (drop p s) = t \<and>
     (\<forall>q. i \<le> q \<and> q < p \<longrightarrow> take (length t) (drop q s) \<noteq> t)"
proof (induction s t i rule: stringIndexOf.induct)
  case (1 s t i)
  show ?case
  proof (cases "take (length t) (drop i s) = t")
    case True
    with "1.prems" show ?thesis
      by (auto simp: stringIndexOf.simps [of s t i] split: if_splits)
  next
    case False
    with "1.prems" have le: "\<not> length s < i + length t"
      and rec: "stringIndexOf s t (Suc i) = Some p"
      by (simp_all add: stringIndexOf.simps [of s t i] split: if_splits)
    from "1.IH" [OF le False rec] False show ?thesis
      by (auto simp: le_Suc_eq less_Suc_eq_le dest: le_neq_implies_less)
  qed
qed

lemma stringIndexOf_None:
  "stringIndexOf s t i = None \<Longrightarrow> i \<le> q \<Longrightarrow> q + length t \<le> length s \<Longrightarrow>
     take (length t) (drop q s) \<noteq> t"
proof (induction s t i rule: stringIndexOf.induct)
  case (1 s t i)
  from "1.prems" have le: "\<not> length s < i + length t" by simp
  with "1.prems"(1) have ne: "take (length t) (drop i s) \<noteq> t"
    and rec: "stringIndexOf s t (Suc i) = None"
    by (simp_all add: stringIndexOf.simps [of s t i] split: if_splits)
  show ?case
  proof (cases "q = i")
    case True
    with ne show ?thesis by simp
  next
    case False
    with "1.prems"(2) have "Suc i \<le> q" by simp
    from "1.IH" [OF le ne rec this "1.prems"(3)] show ?thesis .
  qed
qed

lemma indexOf_Some:
  assumes "indexOf s t pos = Some p"
  shows "min pos (length s) \<le> p" and "p + length t \<le> length s"
    and "take (length t) (drop p s) = t"
    and "\<And>q. min pos (length s) \<le> q \<Longrightarrow> q < p \<Longrightarrow> take (length t) (drop q s) \<noteq> t"
  using stringIndexOf_Some [of s t "min pos (length s)" p] assms
  by (simp_all add: indexOf_def)

lemma indexOf_None:
  "indexOf s t pos = None \<Longrightarrow> pos \<le> q \<Longrightarrow> q + length t \<le> length s \<Longrightarrow>
     take (length t) (drop q s) \<noteq> t"
  using stringIndexOf_None [of s t "min pos (length s)" q]
  by (simp add: indexOf_def)

lemma indexOf_empty: "indexOf s [] pos = Some (min pos (length s))"
  by (simp add: indexOf_def stringIndexOf.simps [of s "[]"])

lemma indexOf_advance:
  assumes "indexOf s t pos = Some p" and "t \<noteq> []"
  shows "pos \<le> p" and "pos < p + length t" and "p + length t \<le> length s"
proof -
  from indexOf_Some(1,2) [OF assms(1)] assms(2)
  show "pos \<le> p" by (cases t) (auto simp: min_def split: if_splits)
  with assms(2) show "pos < p + length t" by (cases t) auto
  from indexOf_Some(2) [OF assms(1)] show "p + length t \<le> length s" .
qed

subsection \<open>Facts about \<^verbatim>\<open>toLowerCase\<close>\<close>

lemma toLowerCase_Nil [simp]: "toLowerCase unicodeLower [] = []"
  by (simp add: toLowerCase_def isAscii_def)

lemma toLowerCase_ascii: "isAscii s \<Longrightarrow> toLowerCase unicodeLower s = map lowerChar s"
  by (simp add: toLowerCase_def)

lemma toLowerCase_ascii_Nil_iff:
  "isAscii s \<Longrightarrow> toLowerCase unicodeLower s = [] \<longleftrightarrow> s = []"
  by (simp add: toLowerCase_def)

lemma isAscii_units_iff: "isAscii (units s) \<longleftrightarrow> list_all (\<lambda>c. (of_char c :: nat) < 128) s"
  by (simp add: isAscii_def units_def list_all_iff)

subsection \<open>The match positions visited by the loop\<close>

text \<open>
  For a non-empty search string the loop ends, and the start indices at which its body
  runs are given by this total function: the first match at or after \<open>startIndex\<close>, then
  the matches found from the end of that match on.
\<close>

function positionsFrom :: "jstring \<Rightarrow> jstring \<Rightarrow> nat \<Rightarrow> nat list" where
  "positionsFrom lineContentLower skillLower startIndex =
     (if skillLower = [] then []
      else case indexOf lineContentLower skillLower startIndex of
        None \<Rightarrow> []
      | Some p \<Rightarrow> p # positionsFrom lineContentLower skillLower (p + length skillLower))"
  by pat_completeness auto
termination
proof (relation "measure (\<lambda>(low, sk, start). Suc (length low) - start)")
  show "wf (measure (\<lambda>(low, sk, start). Suc (length low) - start))" by simp
next
  fix lineContentLower skillLower :: jstring and startIndex p :: nat
  assume "skillLower \<noteq> []" and "indexOf lineContentLower skillLower startIndex = Some p"
  from indexOf_advance [OF this(2) this(1)]
  show "((lineContentLower, skillLower, p + length skillLower),
         (lineContentLower, skillLower, startIndex))
        \<in> measure (\<lambda>(low, sk, start). Suc (length low) - start)"
    by simp
qed

declare positionsFrom.simps [simp del]

definition lineOccurrences :: "(jstring \<Rightarrow> jstring) \<Rightarrow> LineRecord \<Rightarrow> jstring \<Rightarrow> Occurrence list" where
  "lineOccurrences unicodeLower line skillLower =
     map (occurrenceAt line skillLower)
       (positionsFrom (toLowerCase unicodeLower (content line)) skillLower 0)"

subsection \<open>The loop: when it ends and what it returns\<close>

text \<open>
  With an empty search string \<^verbatim>\<open>indexOf\<close> never answers \<^verbatim>\<open>-1\<close> and the start index
  does not advance, so the loop never exits.
\<close>

lemma scanLine_empty_skill: "scanLine line low [] start occ = None"
proof (cases "scanLine line low [] start occ")
  case None
  then show ?thesis .
next
  case (Some y)
  have "([] :: jstring) \<noteq> []"
  proof (rule scanLine.raw_induct
      [where P = "\<lambda>line low sk start occ y. sk \<noteq> []", OF _ Some], goal_cases)
    case (1 f line' low' sk' start' occ' y')
    show ?case
    proof
      assume "sk' = []"
      with "1"(2) have "f line' low' [] (min start' (length low')) (occ' @ [occurrenceAt line' [] (min start' (length low'))]) = Some y'"
        by (simp add: indexOf_empty)
      from "1"(1) [OF this] show False by simp
    qed
  qed
  then show ?thesis by simp
qed

lemma scanLine_nonempty:
  "sk \<noteq> [] \<Longrightarrow>
   scanLine line low sk start occ =
     Some (occ @ map (occurrenceAt line sk) (positionsFrom low sk start))"
proof (induction low sk start arbitrary: occ rule: positionsFrom.induct)
  case (1 low sk start)
  show ?case
  proof (cases "indexOf low sk start")
    case None
    with "1.prems" show ?thesis
      by (simp add: scanLine.simps [of line low sk start] positionsFrom.simps [of low sk start])
  next
    case (Some p)
    from "1.IH" [OF "1.prems" Some "1.prems"] Some "1.prems" show ?thesis
      by (simp add: scanLine.simps [of line low sk start] positionsFrom.simps [of low sk start])
  qed
qed

lemma forEachLine_nonempty:
  "sk \<noteq> [] \<Longrightarrow>
   forEachLine unicodeLower ls sk occ
     = Some (occ @ concat (map (\<lambda>l. lineOccurrences unicodeLower l sk) ls))"
  by (induction ls arbitrary: occ) (simp_all add: scanLine_nonempty lineOccurrences_def)

lemma forEachLine_empty_skill: "ls \<noteq> [] \<Longrightarrow> forEachLine unicodeLower ls [] occ = None"
  by (cases ls) (simp_all add: scanLine_empty_skill)

lemma findSkillOccurrences_nonempty:
  "toLowerCase unicodeLower skill \<noteq> [] \<Longrightarrow>
   findSkillOccurrences unicodeLower td skill =
     Some (concat (map (\<lambda>l. lineOccurrences unicodeLower l (toLowerCase unicodeLower skill))
                     (lines td)))"
  by (simp add: findSkillOccurrences_def forEachLine_nonempty)

lemma findSkillOccurrences_lowered_empty:
  "toLowerCase unicodeLower skill = [] \<Longrightarrow>
   findSkillOccurrences unicodeLower td skill = (if lines td = [] then Some [] else None)"
  by (simp add: findSkillOccurrences_def forEachLine_empty_skill)

lemma findSkillOccurrences_empty_skill:
  "findSkillOccurrences unicodeLower td [] = (if lines td = [] then Some [] else None)"
  by (simp add: findSkillOccurrences_lowered_empty)

lemma positionsFrom_match:
  "p \<in> set (positionsFrom low sk start) \<Longrightarrow>
     start \<le> p \<and> p + length sk \<le> length low \<and> take (length sk) (drop p low) = sk"
proof (induction low sk start rule: positionsFrom.induct)
  case (1 low sk start)
  from "1.prems" have ne: "sk \<noteq> []"
    by (auto simp: positionsFrom.simps [of low sk start] split: if_splits)
  from "1.prems" ne obtain p0 where p0: "indexOf low sk start = Some p0"
    and mem: "p = p0 \<or> p \<in> set (positionsFrom low sk (p0 + length sk))"
    by (cases "indexOf low sk start") (auto simp: positionsFrom.simps [of low sk start])
  from mem show ?case
  proof
    assume "p = p0"
    with indexOf_advance [OF p0 ne] indexOf_Some(3) [OF p0] show ?thesis by simp
  next
    assume "p \<in> set (positionsFrom low sk (p0 + length sk))"
    from "1.IH" [OF ne p0 this] indexOf_advance(2) [OF p0 ne] show ?thesis by simp
  qed
qed

lemma positionsFrom_sorted:
  "sorted_wrt (\<lambda>p q. p + length sk \<le> q) (positionsFrom low sk start)"
proof (induction low sk start rule: positionsFrom.induct)
  case (1 low sk start)
  show ?case
  proof (cases "sk = []")
    case True
    then show ?thesis by (simp add: positionsFrom.simps [of low "[]" start])
  next
    case ne: False
    show ?thesis
    proof (cases "indexOf low sk start")
      case None
      with ne show ?thesis by (simp add: positionsFrom.simps [of low sk start])
    next
      case (Some p0)
      from "1.IH" [OF ne Some] Some ne show ?thesis
        by (auto simp: positionsFrom.simps [of low sk start] dest: positionsFrom_match)
    qed
  qed
qed

text \<open>The index from which the search for the \<open>i\<close>-th position starts.\<close>

definition resumeIndex :: "nat \<Rightarrow> nat list \<Rightarrow> nat \<Rightarrow> nat \<Rightarrow> nat" where
  "resumeIndex start ps n i = (if i = 0 then start else ps ! (i - 1) + n)"

lemma positionsFrom_trace:
  assumes "sk \<noteq> []"
  shows "(\<forall>i < length (positionsFrom low sk start).
            indexOf low sk (resumeIndex start (positionsFrom low sk start) (length sk) i)
              = Some (positionsFrom low sk start ! i))
         \<and> indexOf low sk (resumeIndex start (positionsFrom low sk start) (length sk)
              (length (positionsFrom low sk start))) = None"
  using assms
proof (induction low sk start rule: positionsFrom.induct)
  case (1 low sk start)
  show ?case
  proof (cases "indexOf low sk start")
    case None
    with "1.prems" show ?thesis
      by (simp add: positionsFrom.simps [of low sk start] resumeIndex_def)
  next
    case (Some p0)
    let ?rest = "positionsFrom low sk (p0 + length sk)"
    have eq: "positionsFrom low sk start = p0 # ?rest"
      using Some "1.prems" by (simp add: positionsFrom.simps [of low sk start])
    note IH = "1.IH" [OF "1.prems" Some "1.prems"]
    have step: "resumeIndex start (p0 # ?rest) (length sk) (Suc i)
                  = resumeIndex (p0 + length sk) ?rest (length sk) i" for i
      by (cases i) (simp_all add: resumeIndex_def)
    have "indexOf low sk (resumeIndex start (p0 # ?rest) (length sk) i) = Some ((p0 # ?rest) ! i)"
      if "i < length (p0 # ?rest)" for i
    proof (cases i)
      case 0
      with Some show ?thesis by (simp add: resumeIndex_def)
    next
      case (Suc j)
      with that IH show ?thesis by (simp add: step)
    qed
    moreover have "indexOf low sk (resumeIndex start (p0 # ?rest) (length sk) (length (p0 # ?rest))) = None"
      using IH by (simp add: step)
    ultimately show ?thesis unfolding eq by blast
  qed
qed

lemma positionsFrom_adjacent:
  assumes ne: "sk \<noteq> []" and mem: "p \<in> set (positionsFrom low sk start)"
    and fits: "p + length sk + length sk \<le> length low"
    and rep: "take (length sk) (drop (p + length sk) low) = sk"
  shows "p + length sk \<in> set (positionsFrom low sk start)"
proof -
  let ?ps = "positionsFrom low sk start"
  from mem obtain i where i: "i < length ?ps" and p: "?ps ! i = p"
    by (auto simp: in_set_conv_nth)
  have res: "resumeIndex start ?ps (length sk) (Suc i) = p + length sk"
    by (simp add: resumeIndex_def p)
  show ?thesis
  proof (cases "Suc i < length ?ps")
    case True
    with positionsFrom_trace [OF ne, of low start] res
    have q: "indexOf low sk (p + length sk) = Some (?ps ! Suc i)" by metis
    have "?ps ! Suc i = p + length sk"
    proof (rule ccontr)
      assume "?ps ! Suc i \<noteq> p + length sk"
      with indexOf_advance(1) [OF q ne] have "p + length sk < ?ps ! Suc i" by simp
      from indexOf_Some(4) [OF q _ this] rep show False by simp
    qed
    with True show ?thesis by (metis nth_mem)
  next
    case False
    with i have "Suc i = length ?ps" by simp
    with positionsFrom_trace [OF ne, of low start] res
    have "indexOf low sk (p + length sk) = None" by metis
    from indexOf_None [OF this le_refl] fits rep show ?thesis by (simp add: add.assoc)
  qed
qed

section \<open>Properties of the Occurrence Locator\<close>

text \<open>The positions recorded on one line for a non-empty lower-cased skill.\<close>

lemma positionsFrom_policy:
  assumes "sk \<noteq> []"
  shows "let ps = positionsFrom low sk 0
         in sorted_wrt (\<lambda>p q. p + length sk \<le> q) ps
          \<and> (\<forall>p \<in> set ps. p + length sk \<le> length low \<and> take (length sk) (drop p low) = sk)
          \<and> (\<forall>i < length ps. indexOf low sk (resumeIndex 0 ps (length sk) i) = Some (ps ! i))
          \<and> indexOf low sk (resumeIndex 0 ps (length sk) (length ps)) = None
          \<and> (\<forall>p \<in> set ps. p + length sk + length sk \<le> length low
                \<and> take (length sk) (drop (p + length sk) low) = sk
                \<longrightarrow> p + length sk \<in> set ps)"
proof -
  have "sorted_wrt (\<lambda>p q. p + length sk \<le> q) (positionsFrom low sk 0)"
    by (rule positionsFrom_sorted)
  moreover have "\<forall>p \<in> set (positionsFrom low sk 0).
      p + length sk \<le> length low \<and> take (length sk) (drop p low) = sk"
    using positionsFrom_match [of _ low sk 0] by blast
  moreover note positionsFrom_trace [OF assms, of low 0]
  moreover have "\<forall>p \<in> set (positionsFrom low sk 0).
       p + length sk + length sk \<le> length low
       \<and> take (length sk) (drop (p + length sk) low) = sk
       \<longrightarrow> p + length sk \<in> set (positionsFrom low sk 0)"
    using positionsFrom_adjacent [OF assms, of _ low 0] by blast
  ultimately show ?thesis unfolding Let_def by (intro conjI) (erule conjunct1 conjunct2 | assumption)+
qed

text \<open>
  C6, as stated, fails where lower-casing changes the length of the skill. The skill of
  two U+0130 has the lower-case form of four code units, the line of three U+0130 the one
  of six. The Locator records the match at 0 and resumes at \<open>0 + 4\<close>, where nothing is
  found: one occurrence. It does not resume at \<open>0 + len(skill) = 2\<close>, where the skill is
  found again.
\<close>

theorem resume_index_is_lowered_length:
  "findSkillOccurrences exampleLower
     \<lparr>fullText = [304, 304, 304],
      lines = [\<lparr>lineNumber = 1, content = [304, 304, 304], estimatedPage = 1\<rparr>],
      totalLines = 1, estimatedPages = 1\<rparr> [304, 304]
   = Some [\<lparr>o_lineNumber = 1, o_estimatedPage = 1, o_context = [304, 304, 304]\<rparr>]
   \<and> positionsFrom (toLowerCase exampleLower [304, 304, 304])
         (toLowerCase exampleLower [304, 304]) 0 = [0]
   \<and> length (toLowerCase exampleLower [304, 304]) = 4
   \<and> indexOf (toLowerCase exampleLower [304, 304, 304])
         (toLowerCase exampleLower [304, 304]) (0 + length [304, 304 :: nat]) = Some 2"
  by code_simp

text \<open>
  C6, amended. Whatever \<^verbatim>\<open>findSkillOccurrences\<close> returns is, line after line, the
  occurrences built at the positions \<open>ps\<close> that the scan records in the lower-cased line.
  The lower-case form \<open>sk\<close> of an ASCII skill has the length of the skill. When \<open>sk\<close> is
  not empty the function returns, and on every line: two recorded matches never overlap (a
  later one starts at or after the end of an earlier one); each recorded position is a
  match of \<open>sk\<close> inside the lower-cased line; the scan for the first position starts at
  index 0 and, after a match at \<open>p\<close>, at \<open>p + len(sk)\<close>, and the scan after the last match
  finds nothing; a repeat that starts exactly at the end of a recorded match is recorded.
\<close>

theorem findSkillOccurrences_resumes_after_match:
  "let sk = toLowerCase unicodeLower skill;
       found = concat (map (\<lambda>line. map (occurrenceAt line sk)
                               (positionsFrom (toLowerCase unicodeLower (content line)) sk 0))
                       (lines textData))
   in (\<forall>occs. findSkillOccurrences unicodeLower textData skill = Some occs \<longrightarrow> occs = found)
    \<and> (isAscii skill \<longrightarrow> length sk = length skill)
    \<and> (sk \<noteq> [] \<longrightarrow>
          findSkillOccurrences unicodeLower textData skill = Some found
        \<and> (\<forall>line \<in> set (lines textData).
              let low = toLowerCase unicodeLower (content line); ps = positionsFrom low sk 0
              in sorted_wrt (\<lambda>p q. p + length sk \<le> q) ps
               \<and> (\<forall>p \<in> set ps. p + length sk \<le> length low
                     \<and> take (length sk) (drop p low) = sk)
               \<and> (\<forall>i < length ps.
                     indexOf low sk (resumeIndex 0 ps (length sk) i) = Some (ps ! i))
               \<and> indexOf low sk (resumeIndex 0 ps (length sk) (length ps)) = None
               \<and> (\<forall>p \<in> set ps. p + length sk + length sk \<le> length low
                     \<and> take (length sk) (drop (p + length sk) low) = sk
                     \<longrightarrow> p + length sk \<in> set ps)))"
proof -
  let ?sk = "toLowerCase unicodeLower skill"
  let ?found = "concat (map (\<lambda>line. map (occurrenceAt line ?sk)
                               (positionsFrom (toLowerCase unicodeLower (content line)) ?sk 0))
                       (lines textData))"
  have ret: "findSkillOccurrences unicodeLower textData skill = Some ?found" if "?sk \<noteq> []"
    using findSkillOccurrences_nonempty [OF that, of textData]
    by (simp add: lineOccurrences_def)
  have part: "\<forall>occs. findSkillOccurrences unicodeLower textData skill = Some occs
                \<longrightarrow> occs = ?found"
  proof (cases "?sk = []")
    case True
    then show ?thesis
      by (simp add: findSkillOccurrences_lowered_empty)
  next
    case False
    from ret [OF False] show ?thesis by simp
  qed
  have len: "isAscii skill \<longrightarrow> length ?sk = length skill"
    by (simp add: toLowerCase_ascii)
  have lines: "\<forall>line \<in> set (lines textData).
              let low = toLowerCase unicodeLower (content line); ps = positionsFrom low ?sk 0
              in sorted_wrt (\<lambda>p q. p + length ?sk \<le> q) ps
               \<and> (\<forall>p \<in> set ps. p + length ?sk \<le> length low
                     \<and> take (length ?sk) (drop p low) = ?sk)
               \<and> (\<forall>i < length ps.
                     indexOf low ?sk (resumeIndex 0 ps (length ?sk) i) = Some (ps ! i))
               \<and> indexOf low ?sk (resumeIndex 0 ps (length ?sk) (length ps)) = None
               \<and> (\<forall>p \<in> set ps. p + length ?sk + length ?sk \<le> length low
                     \<and> take (length ?sk) (drop (p + length ?sk) low) = ?sk
                     \<longrightarrow> p + length ?sk \<in> set ps)"
    if "?sk \<noteq> []"
  proof
    fix line
    assume "line \<in> set (lines textData)"
    from positionsFrom_policy [OF that, of "toLowerCase unicodeLower (content line)"]
    show "let low = toLowerCase unicodeLower (content line); ps = positionsFrom low ?sk 0
              in sorted_wrt (\<lambda>p q. p + length ?sk \<le> q) ps
               \<and> (\<forall>p \<in> set ps. p + length ?sk \<le> length low
                     \<and> take (length ?sk) (drop p low) = ?sk)
               \<and> (\<forall>i < length ps.
                     indexOf low ?sk (resumeIndex 0 ps (length ?sk) i) = Some (ps ! i))
               \<and> indexOf low ?sk (resumeIndex 0 ps (length ?sk) (length ps)) = None
               \<and> (\<forall>p \<in> set ps. p + length ?sk + length ?sk \<le> length low
                     \<and> take (length ?sk) (drop (p + length ?sk) low) = ?sk
                     \<longrightarrow> p + length ?sk \<in> set ps)"
      unfolding Let_def .
  qed
  from ret lines have third: "?sk \<noteq> [] \<longrightarrow>
          findSkillOccurrences unicodeLower textData skill = Some ?found
        \<and> (\<forall>line \<in> set (lines textData).
              let low = toLowerCase unicodeLower (content line); ps = positionsFrom low ?sk 0
              in sorted_wrt (\<lambda>p q. p + length ?sk \<le> q) ps
               \<and> (\<forall>p \<in> set ps. p + length ?sk \<le> length low
                     \<and> take (length ?sk) (drop p low) = ?sk)
               \<and> (\<forall>i < length ps.
                     indexOf low ?sk (resumeIndex 0 ps (length ?sk) i) = Some (ps ! i))
               \<and> indexOf low ?sk (resumeIndex 0 ps (length ?sk) (length ps)) = None
               \<and> (\<forall>p \<in> set ps. p + length ?sk + length ?sk \<le> length low
                     \<and> take (length ?sk) (drop (p + length ?sk) low) = ?sk
                     \<longrightarrow> p + length ?sk \<in> set ps))"
    by (intro impI conjI)
  from part len third show ?thesis
    unfolding Let_def by (intro conjI)
qed

text \<open>Searching \<^verbatim>\<open>aa\<close> in a text of the single line \<^verbatim>\<open>aaaa\<close>: two occurrences, at the
  positions 0 and 2.\<close>

theorem findSkillOccurrences_resumes_after_match_witness:
  "toLowerCase exampleLower (units ''aa'') \<noteq> []
   \<and> isAscii (units ''aa'')
   \<and> length (toLowerCase exampleLower (units ''aa'')) = length (units ''aa'')
   \<and> positionsFrom (toLowerCase exampleLower (units ''aaaa''))
         (toLowerCase exampleLower (units ''aa'')) 0 = [0, 2]
   \<and> findSkillOccurrences exampleLower
        \<lparr>fullText = units ''aaaa'',
         lines = [\<lparr>lineNumber = 1, content = units ''aaaa'', estimatedPage = 1\<rparr>],
         totalLines = 1, estimatedPages = 1\<rparr> (units ''aa'')
      = Some [\<lparr>o_lineNumber = 1, o_estimatedPage = 1, o_context = units ''aaaa''\<rparr>,
              \<lparr>o_lineNumber = 1, o_estimatedPage = 1, o_context = units ''aaaa''\<rparr>]"
proof -
  let ?td = "\<lparr>fullText = units ''aaaa'',
         lines = [\<lparr>lineNumber = 1, content = units ''aaaa'', estimatedPage = 1\<rparr>],
         totalLines = 1, estimatedPages = 1\<rparr>"
  have ne: "toLowerCase exampleLower (units ''aa'') \<noteq> []" by code_simp
  have asc: "isAscii (units ''aa'')" by code_simp
  have ps: "positionsFrom (toLowerCase exampleLower (units ''aaaa''))
         (toLowerCase exampleLower (units ''aa'')) 0 = [0, 2]"
    by code_simp
  have val: "concat (map (\<lambda>line. map (occurrenceAt line (toLowerCase exampleLower (units ''aa'')))
                (positionsFrom (toLowerCase exampleLower (content line))
                   (toLowerCase exampleLower (units ''aa'')) 0))
             (lines ?td))
      = [\<lparr>o_lineNumber = 1, o_estimatedPage = 1, o_context = units ''aaaa''\<rparr>,
         \<lparr>o_lineNumber = 1, o_estimatedPage = 1, o_context = units ''aaaa''\<rparr>]"
    by code_simp
  note t = findSkillOccurrences_resumes_after_match
    [of exampleLower "units ''aa''" ?td, unfolded Let_def]
  from t [THEN conjunct2, THEN conjunct1, THEN mp, OF asc]
  have len: "length (toLowerCase exampleLower (units ''aa'')) = length (units ''aa'')" .
  from t [THEN conjunct2, THEN conjunct2, THEN mp, OF ne, THEN conjunct1]
  have "findSkillOccurrences exampleLower ?td (units ''aa'')
      = Some [\<lparr>o_lineNumber = 1, o_estimatedPage = 1, o_context = units ''aaaa''\<rparr>,
              \<lparr>o_lineNumber = 1, o_estimatedPage = 1, o_context = units ''aaaa''\<rparr>]"
    unfolding val .
  with ne asc len ps show ?thesis by (intro conjI)
qed

text \<open>
  C1. The specification says that \<^verbatim>\<open>findSkillOccurrences\<close> returns the empty sequence for
  the empty skill. On a resume of one line the call does not return: the loop of lines 57
  to 69 finds the empty string at its start index forever. (For every skill with a
  non-empty lower-case form the call returns, by \<open>findSkillOccurrences_nonempty\<close>.)
\<close>

theorem findSkillOccurrences_empty_skill_never_returns:
  "findSkillOccurrences unicodeLower
     \<lparr>fullText = units ''Python'',
      lines = [\<lparr>lineNumber = 1, content = units ''Python'', estimatedPage = 1\<rparr>],
      totalLines = 1, estimatedPages = 1\<rparr> [] = None"
  by (simp add: findSkillOccurrences_empty_skill)

subsection \<open>The context of an occurrence\<close>

lemma substring_take_drop:
  "a \<le> b \<Longrightarrow> b \<le> length s \<Longrightarrow> substring s a b = take (b - a) (drop a s)"
  by (simp add: substring_def Let_def min_def max_def)

lemma occurrenceAt_context:
  assumes fits: "p + n \<le> length c" and c: "c = content line" and n: "n = length sk"
  shows "\<exists>u before mid after v.
           c = u @ before @ mid @ after @ v
         \<and> o_context (occurrenceAt line sk p) = before @ mid @ after
         \<and> mid = take n (drop p c)
         \<and> length before \<le> 30 \<and> length after \<le> 30
         \<and> (u \<noteq> [] \<longrightarrow> length before = 30)
         \<and> (v \<noteq> [] \<longrightarrow> length after = 30)"
proof -
  define s where "s = p - 30"
  define e where "e = min (length c) (p + n + 30)"
  define u where "u = take s c"
  define before where "before = take (p - s) (drop s c)"
  define mid where "mid = take n (drop p c)"
  define after where "after = take (e - (p + n)) (drop (p + n) c)"
  define v where "v = drop e c"
  have sp: "s \<le> p" and pe: "p + n \<le> e" and el: "e \<le> length c"
    using fits by (simp_all add: s_def e_def)
  have l1: "drop s c = before @ drop p c"
    using sp append_take_drop_id [of "p - s" "drop s c"] by (simp add: before_def)
  have l2: "drop p c = mid @ drop (p + n) c"
    using append_take_drop_id [of n "drop p c"] by (simp add: mid_def add.commute)
  have l3: "drop (p + n) c = after @ v"
    using pe append_take_drop_id [of "e - (p + n)" "drop (p + n) c"]
    by (simp add: after_def v_def)
  have whole: "c = u @ before @ mid @ after @ v"
    using append_take_drop_id [of s c] l1 l2 l3 by (simp add: u_def)
  have lens: "length before = p - s" "length mid = n" "length after = e - (p + n)"
    using sp pe el fits by (simp_all add: before_def mid_def after_def)
  have "take (e - s) (drop s c) = before @ mid @ after"
  proof -
    have "drop s c = (before @ mid @ after) @ v" using l1 l2 l3 by simp
    moreover have "length (before @ mid @ after) = e - s" using lens sp pe by simp
    ultimately show ?thesis by (metis append_eq_conv_conj)
  qed
  moreover have "o_context (occurrenceAt line sk p) = take (e - s) (drop s c)"
  proof -
    have "nat (max 0 (int p - 30)) = s" by (simp add: s_def)
    moreover have "min (length (content line)) (p + length sk + 30) = e"
      by (simp add: e_def c n)
    moreover have "s \<le> e" using sp pe by simp
    ultimately show ?thesis
      using el by (simp add: occurrenceAt_def Let_def substring_take_drop c)
  qed
  ultimately have ctx: "o_context (occurrenceAt line sk p) = before @ mid @ after" by simp
  have b30: "length before \<le> 30" using lens by (simp add: s_def)
  have a30: "length after \<le> 30" using lens by (simp add: e_def)
  have ub: "u \<noteq> [] \<longrightarrow> length before = 30"
    using lens sp by (auto simp: u_def s_def)
  have va: "v \<noteq> [] \<longrightarrow> length after = 30"
    using lens pe el by (auto simp: v_def e_def min_def split: if_splits)
  from whole ctx b30 a30 ub va mid_def show ?thesis by blast
qed

lemma isAscii_take_drop: "isAscii s \<Longrightarrow> isAscii (take n (drop p s))"
  by (auto simp: isAscii_def list_all_iff dest: in_set_takeD in_set_dropD)

text \<open>
  On lines of ASCII characters the index found in the lower-cased line is an index of the
  line itself, and the context is the window around the match: a contiguous piece
  \<open>before @ mid @ after\<close> of the line, where \<open>mid\<close> is the matched text, \<open>before\<close> and \<open>after\<close>
  have at most 30 characters each, and either is shorter only when it reaches the start,
  respectively the end, of the line.
\<close>

lemma occurrence_context_ascii_lines:
  assumes "findSkillOccurrences unicodeLower textData skill = Some occs"
    and "occ \<in> set occs"
    and "\<forall>line \<in> set (lines textData). isAscii (content line)"
  shows "\<exists>line \<in> set (lines textData). \<exists>u before mid after v.
           o_lineNumber occ = lineNumber line
         \<and> o_estimatedPage occ = estimatedPage line
         \<and> content line = u @ before @ mid @ after @ v
         \<and> o_context occ = before @ mid @ after
         \<and> toLowerCase unicodeLower mid = toLowerCase unicodeLower skill
         \<and> length before \<le> 30 \<and> length after \<le> 30
         \<and> (u \<noteq> [] \<longrightarrow> length before = 30)
         \<and> (v \<noteq> [] \<longrightarrow> length after = 30)"
proof (cases "toLowerCase unicodeLower skill = []")
  case True
  with assms(1,2) show ?thesis
    by (simp add: findSkillOccurrences_lowered_empty split: if_splits)
next
  case False
  let ?sk = "toLowerCase unicodeLower skill"
  from assms(1,2) findSkillOccurrences_nonempty [OF False, of textData]
  obtain line p where line: "line \<in> set (lines textData)"
    and p: "p \<in> set (positionsFrom (toLowerCase unicodeLower (content line)) ?sk 0)"
    and occ: "occ = occurrenceAt line ?sk p"
    by (auto simp: lineOccurrences_def)
  from line assms(3) have asc: "isAscii (content line)" by blast
  then have low: "toLowerCase unicodeLower (content line) = map lowerChar (content line)"
    by (rule toLowerCase_ascii)
  from positionsFrom_match [OF p]
  have fits: "p + length ?sk \<le> length (content line)"
    and m: "take (length ?sk) (drop p (map lowerChar (content line))) = ?sk"
    by (simp_all add: low)
  from occurrenceAt_context [OF fits refl refl]
  obtain u before mid after v where
    parts: "content line = u @ before @ mid @ after @ v"
      "o_context (occurrenceAt line ?sk p) = before @ mid @ after"
      "mid = take (length ?sk) (drop p (content line))"
      "length before \<le> 30" "length after \<le> 30"
      "u \<noteq> [] \<longrightarrow> length before = 30" "v \<noteq> [] \<longrightarrow> length after = 30"
    by blast
  have "isAscii mid" unfolding parts(3) using asc by (rule isAscii_take_drop)
  then have "toLowerCase unicodeLower mid = map lowerChar mid" by (rule toLowerCase_ascii)
  with parts(3) m have "toLowerCase unicodeLower mid = ?sk"
    by (simp add: take_map drop_map)
  moreover have "o_lineNumber occ = lineNumber line" "o_estimatedPage occ = estimatedPage line"
    by (simp_all add: occ occurrenceAt_def Let_def)
  ultimately show ?thesis using line parts occ by blast
qed

subsection \<open>Searching past characters that do not start the searched text\<close>

lemma stringIndexOf_Cons_Suc:
  "stringIndexOf (x # s) t (Suc i) = map_option Suc (stringIndexOf s t i)"
proof (induction s t i rule: stringIndexOf.induct)
  case (1 s t i)
  show ?case
  proof (cases "length s < i + length t")
    case True
    then show ?thesis
      by (simp add: stringIndexOf.simps [of "x # s" t "Suc i"] stringIndexOf.simps [of s t i])
  next
    case le: False
    show ?thesis
    proof (cases "take (length t) (drop i s) = t")
      case True
      with le show ?thesis
        by (simp add: stringIndexOf.simps [of "x # s" t "Suc i"] stringIndexOf.simps [of s t i])
    next
      case False
      from "1.IH" [OF le False] le False show ?thesis
        by (simp add: stringIndexOf.simps [of "x # s" t "Suc i"] stringIndexOf.simps [of s t i])
    qed
  qed
qed

lemma indexOf_skip_prefix:
  assumes "t \<noteq> []" and "hd t \<notin> set xs"
  shows "indexOf (xs @ s) t 0 = map_option (\<lambda>p. length xs + p) (indexOf s t 0)"
  using assms(2)
proof (induction xs)
  case Nil
  then show ?case by (simp add: option.map_ident)
next
  case (Cons x xs)
  then have x: "x \<noteq> hd t" and IH: "indexOf (xs @ s) t 0
      = map_option (\<lambda>p. length xs + p) (indexOf s t 0)" by auto
  from assms(1) x have nomatch: "take (length t) (x # xs @ s) \<noteq> t"
    by (cases t) auto
  show ?case
  proof (cases "length (x # xs @ s) < length t")
    case True
    then have "indexOf s t 0 = None"
      by (simp add: indexOf_def stringIndexOf.simps [of s t 0])
    with True show ?thesis
      by (simp add: indexOf_def stringIndexOf.simps [of "x # xs @ s" t 0])
  next
    case False
    with nomatch have "indexOf ((x # xs) @ s) t 0 = stringIndexOf (x # xs @ s) t (Suc 0)"
      by (simp add: indexOf_def stringIndexOf.simps [of "x # xs @ s" t 0])
    also have "\<dots> = map_option Suc (indexOf (xs @ s) t 0)"
      by (simp add: stringIndexOf_Cons_Suc indexOf_def)
    also have "\<dots> = map_option (\<lambda>p. length (x # xs) + p) (indexOf s t 0)"
      by (simp add: IH option.map_comp comp_def)
    finally show ?thesis .
  qed
qed

lemma indexOf_None_no_head:
  assumes "t \<noteq> []" and "hd t \<notin> set (drop pos s)"
  shows "indexOf s t pos = None"
proof (cases "indexOf s t pos")
  case None
  then show ?thesis .
next
  case (Some p)
  from indexOf_advance [OF Some assms(1)] have le: "pos \<le> p" and fits: "p + length t \<le> length s"
    by simp_all
  from assms(1) fits have lt: "p < length s" by (cases t) auto
  from indexOf_Some(3) [OF Some] assms(1) lt have "hd t = s ! p"
    by (cases t) (auto simp: take_Suc_conv_app_nth hd_drop_conv_nth dest: arg_cong [where f = hd])
  with le lt have "hd t \<in> set (drop pos s)"
    by (auto simp: in_set_conv_nth intro!: exI [of _ "p - pos"])
  with assms(2) show ?thesis by simp
qed

text \<open>
  C7. The specification says that the context of an occurrence reaches at most 30
  characters before the start and after the end of the match. The source finds the index
  of the match in the lower-cased line (line 57) and cuts the line itself with it (lines
  58 to 60). On a line of 40 U+0130, then \<^verbatim>\<open>python\<close>, then 80 \<^verbatim>\<open>z\<close>, the lower-cased line has
  the match at index 80, while the line has it at index 40: the context returned is the
  piece from 50 to 116, which is 66 \<^verbatim>\<open>z\<close> and does not hold the match at all.
\<close>

theorem context_cut_with_lowered_index:
  "findSkillOccurrences exampleLower
     \<lparr>fullText = replicate 40 304 @ units ''python'' @ replicate 80 122,
      lines = [\<lparr>lineNumber = 1,
                content = replicate 40 304 @ units ''python'' @ replicate 80 122,
                estimatedPage = 1\<rparr>],
      totalLines = 1, estimatedPages = 1\<rparr> (units ''python'')
   = Some [\<lparr>o_lineNumber = 1, o_estimatedPage = 1, o_context = replicate 66 122\<rparr>]
   \<and> take 6 (drop 40 (replicate 40 304 @ units ''python'' @ replicate 80 122))
       = units ''python''"
proof -
  let ?L = "replicate 40 304 @ units ''python'' @ replicate 80 (122::nat)"
  let ?A = "concat (replicate 40 [105, 775::nat])"
  let ?low = "?A @ units ''python'' @ replicate 80 122"
  let ?line = "\<lparr>lineNumber = 1, content = ?L, estimatedPage = 1\<rparr>"
  let ?occ = "\<lparr>o_lineNumber = 1, o_estimatedPage = 1, o_context = replicate 66 122\<rparr>"
  have low: "toLowerCase exampleLower ?L = ?low" by code_simp
  have sk: "toLowerCase exampleLower (units ''python'') = units ''python''" by code_simp
  have ne: "units ''python'' \<noteq> []" by code_simp
  have hd: "hd (units ''python'') = 112" by code_simp
  have lenA: "length ?A = 80" by code_simp
  have "indexOf (units ''python'' @ replicate 80 122) (units ''python'') 0 = Some 0"
    by code_simp
  moreover have "hd (units ''python'') \<notin> set ?A" unfolding hd by simp
  ultimately have first: "indexOf ?low (units ''python'') 0 = Some 80"
    using indexOf_skip_prefix [OF ne, of ?A "units ''python'' @ replicate 80 122"]
    by (simp add: lenA)
  have "drop 86 ?low = replicate 80 122" by code_simp
  then have "hd (units ''python'') \<notin> set (drop 86 ?low)" unfolding hd by simp
  from indexOf_None_no_head [OF ne this]
  have last: "indexOf ?low (units ''python'') 86 = None" .
  have len: "80 + length (units ''python'') = 86" by code_simp
  have occ: "occurrenceAt ?line (units ''python'') 80 = ?occ" by code_simp
  have "scanLine ?line ?low (units ''python'') 0 []
        = scanLine ?line ?low (units ''python'') (80 + length (units ''python''))
            ([] @ [occurrenceAt ?line (units ''python'') 80])"
    by (subst scanLine.simps) (simp only: first option.simps)
  also have "\<dots> = scanLine ?line ?low (units ''python'') 86 [?occ]"
    by (simp only: len occ append_Nil)
  also have "\<dots> = Some [?occ]"
    by (subst scanLine.simps) (simp only: last option.simps)
  finally have "scanLine ?line ?low (units ''python'') 0 [] = Some [?occ]" .
  then have "findSkillOccurrences exampleLower
     \<lparr>fullText = ?L, lines = [?line], totalLines = 1, estimatedPages = 1\<rparr> (units ''python'')
   = Some [?occ]"
    by (simp add: findSkillOccurrences_def low sk)
  moreover have "take 6 (drop 40 ?L) = units ''python''" by code_simp
  ultimately show ?thesis by (intro conjI)
qed

subsection \<open>Letter case\<close>









section \<open>Numbers\<close>

text \<open>
  A JavaScript number is an IEEE 754 double. The finite doubles are rational numbers, and
  an arithmetic operation returns the exact result rounded to the nearest double, ties to
  the even significand. The model covers the normal range (53-bit significands, no
  overflow and no subnormal results), which holds every quotient and product of the
  lengths and constants the program computes with.
\<close>

definition pow2 :: "int \<Rightarrow> rat" where
  "pow2 k = (if 0 \<le> k then 2 ^ nat k else 1 / 2 ^ nat (- k))"

text \<open>The exponent \<open>e\<close> with \<open>2 ^ e \<le> x < 2 ^ (e + 1)\<close>, for \<open>x > 0\<close>.\<close>

definition binaryExponent :: "rat \<Rightarrow> int" where
  "binaryExponent x =
     (let (p, q) = quotient_of x; d = bitlen p - bitlen q
      in if pow2 d \<le> x then d else d - 1)"

definition roundHalfEven :: "rat \<Rightarrow> int" where
  "roundHalfEven x =
     (let f = \<lfloor>x\<rfloor>; d = x - of_int f
      in if d < 1 / 2 then f else if 1 / 2 < d then f + 1
         else if even f then f else f + 1)"

definition toDouble :: "rat \<Rightarrow> rat" where
  "toDouble x =
     (if x = 0 then 0
      else let e = binaryExponent \<bar>x\<bar> - 52
           in of_int (roundHalfEven (x / pow2 e)) * pow2 e)"

text \<open>\<^verbatim>\<open>a / b\<close> and \<^verbatim>\<open>a * b\<close> on numbers; the divisor is never zero where the program divides.\<close>

definition jsDivide :: "rat \<Rightarrow> rat \<Rightarrow> rat" where
  "jsDivide a b = toDouble (a / b)"

definition jsTimes :: "rat \<Rightarrow> rat \<Rightarrow> rat" where
  "jsTimes a b = toDouble (a * b)"

text \<open>\<^verbatim>\<open>Math.round\<close>: the nearest integer, a tie going up. \<^verbatim>\<open>Math.ceil\<close>: the ceiling.\<close>

definition Math_round :: "rat \<Rightarrow> int" where
  "Math_round x = \<lfloor>x + 1 / 2\<rfloor>"

definition Math_ceil :: "rat \<Rightarrow> int" where
  "Math_ceil x = \<lceil>x\<rceil>"

subsection \<open>The rounding is to a nearest double\<close>

lemma pow2_diff: "pow2 (int a - int b) = 2 ^ a / 2 ^ b"
proof (cases "b \<le> a")
  case True
  then have "pow2 (int a - int b) = 2 ^ (a - b)" by (simp add: pow2_def nat_diff_distrib')
  also have "\<dots> = (2::rat) ^ a / 2 ^ b" using True by (simp add: power_diff)
  finally show ?thesis .
next
  case False
  then have "pow2 (int a - int b) = 1 / 2 ^ (b - a)"
    by (simp add: pow2_def nat_diff_distrib')
  also have "\<dots> = (2::rat) ^ a / 2 ^ b"
    using False by (simp add: power_diff field_simps)
  finally show ?thesis .
qed

lemma binaryExponent_bounds:
  assumes "0 < x"
  shows "pow2 (binaryExponent x) \<le> x" and "x < pow2 (binaryExponent x + 1)"
proof -
  obtain p q where pq: "quotient_of x = (p, q)" by (cases "quotient_of x")
  then have q: "0 < q" and x: "x = of_int p / of_int q"
    by (simp_all add: quotient_of_denom_pos quotient_of_div)
  with assms have p: "0 < p" by (simp add: zero_less_divide_iff)
  define a where "a = nat (bitlen p)"
  define b where "b = nat (bitlen q)"
  have bp: "1 \<le> bitlen p" and bq: "1 \<le> bitlen q"
    using p q by (auto simp: bitlen_alt_def)
  have a1: "1 \<le> a" and b1: "1 \<le> b"
    using bp bq by (simp_all add: a_def b_def)
  have na: "nat (bitlen p - 1) = a - 1" and nb: "nat (bitlen q - 1) = b - 1"
    using bp bq by (simp_all add: a_def b_def)
  from bitlen_bounds [OF p] have pl: "(2::int) ^ (a - 1) \<le> p" and pu: "p < 2 ^ a"
    by (simp_all add: na a_def)
  from bitlen_bounds [OF q] have ql: "(2::int) ^ (b - 1) \<le> q" and qu: "q < 2 ^ b"
    by (simp_all add: nb b_def)
  have rpl: "(2::rat) ^ (a - 1) \<le> of_int p"
  proof -
    from pl have "(of_int ((2::int) ^ (a - 1)) :: rat) \<le> of_int p" by (simp only: of_int_le_iff)
    then show ?thesis by simp
  qed
  have rpu: "(of_int p :: rat) < 2 ^ a"
  proof -
    from pu have "(of_int p :: rat) < of_int ((2::int) ^ a)" by (simp only: of_int_less_iff)
    then show ?thesis by simp
  qed
  have rql: "(2::rat) ^ (b - 1) \<le> of_int q"
  proof -
    from ql have "(of_int ((2::int) ^ (b - 1)) :: rat) \<le> of_int q" by (simp only: of_int_le_iff)
    then show ?thesis by simp
  qed
  have rqu: "(of_int q :: rat) < 2 ^ b"
  proof -
    from qu have "(of_int q :: rat) < of_int ((2::int) ^ b)" by (simp only: of_int_less_iff)
    then show ?thesis by simp
  qed
  have d: "bitlen p - bitlen q = int a - int b"
    using bp bq by (simp add: a_def b_def)
  have lower: "pow2 (int a - int b - 1) \<le> x"
  proof -
    have "pow2 (int (a - 1) - int b) = 2 ^ (a - 1) / 2 ^ b" by (rule pow2_diff)
    also have "\<dots> \<le> of_int p / of_int q"
      using rpl rqu q p by (intro frac_le) simp_all
    finally have le: "pow2 (int (a - 1) - int b) \<le> x" using x by simp
    have e: "int (a - 1) - int b = int a - int b - 1" using a1 by simp
    from le show ?thesis unfolding e .
  qed
  have upper: "x < pow2 (int a - int b + 1)"
  proof -
    have "of_int p / of_int q < (2::rat) ^ a / 2 ^ (b - 1)"
      using rpu rql p q by (intro frac_less) simp_all
    also have "\<dots> = pow2 (int a - int (b - 1))" by (rule pow2_diff [symmetric])
    finally have less: "x < pow2 (int a - int (b - 1))" using x by simp
    have e: "int a - int (b - 1) = int a - int b + 1" using b1 by simp
    from less show ?thesis unfolding e .
  qed
  show "pow2 (binaryExponent x) \<le> x"
    using lower by (simp add: binaryExponent_def pq d Let_def)
  show "x < pow2 (binaryExponent x + 1)"
    using upper by (auto simp: binaryExponent_def pq d Let_def not_le)
qed

lemma pow2_pos [simp]: "0 < pow2 k"
  by (simp add: pow2_def)

lemma pow2_neq_0 [simp]: "pow2 k \<noteq> 0"
  by (simp add: pow2_def)

lemma roundHalfEven_nearest: "\<bar>of_int (roundHalfEven y) - y\<bar> \<le> 1 / 2"
proof -
  have "of_int \<lfloor>y\<rfloor> \<le> y" and "y < of_int \<lfloor>y\<rfloor> + 1" by linarith+
  then show ?thesis by (auto simp: roundHalfEven_def Let_def abs_le_iff)
qed

text \<open>The double of \<open>x\<close> is a multiple of \<open>2 ^ e\<close>, for the exponent \<open>e\<close> that leaves 53 bits
  to the significand, and no such multiple is nearer to \<open>x\<close>: it is within half of \<open>2 ^ e\<close>.\<close>

lemma toDouble_nearest:
  "\<bar>toDouble x - x\<bar> \<le> pow2 (binaryExponent \<bar>x\<bar> - 52) / 2"
proof (cases "x = 0")
  case True
  then show ?thesis by (simp add: toDouble_def less_imp_le)
next
  case False
  define s where "s = pow2 (binaryExponent \<bar>x\<bar> - 52)"
  have s: "0 < s" by (simp add: s_def)
  have "toDouble x - x = (of_int (roundHalfEven (x / s)) - x / s) * s"
    using False s by (simp add: toDouble_def Let_def s_def field_simps)
  then have "\<bar>toDouble x - x\<bar> = \<bar>of_int (roundHalfEven (x / s)) - x / s\<bar> * s"
    using s by (simp add: abs_mult)
  also have "\<dots> \<le> 1 / 2 * s"
    using roundHalfEven_nearest [of "x / s"] s by (intro mult_right_mono) simp_all
  finally show ?thesis by (simp add: s_def)
qed

section \<open>Deterministic Scorer: \<^verbatim>\<open>analyzeSkills\<close>\<close>

text \<open>The values a field of a result can hold once a parsed reply of the judge may be
  written into it: any JSON value, or \<^verbatim>\<open>undefined\<close>.\<close>

datatype jsval =
    JUndefined
  | JNull
  | JBool bool
  | JNum rat
  | JStr jstring
  | JArr "jsval list"
  | JObj "(jstring \<times> jsval) list"

record SkillMatch =
  skill :: jstring
  occurrences :: "Occurrence list"
  totalOccurrences :: nat

record ResumeResult =
  fileName :: jstring
  eligible :: jsval
  matchPercentage :: jsval
  matched :: "SkillMatch list"
  missing :: "jstring list"
  summary :: jsval
  r_totalLines :: nat
  r_estimatedPages :: nat

text \<open>\<^verbatim>\<open>requiredSkills.split(',').map(s => s.trim())\<close>; 44 is the comma.\<close>

definition skillsArrayOf :: "jstring \<Rightarrow> jstring list" where
  "skillsArrayOf requiredSkills = map trim (split 44 requiredSkills)"

text \<open>\<^verbatim>\<open>skillsArray.forEach\<close>, lines 83 to 95: \<open>ms\<close> and \<open>ns\<close> are the arrays
  \<^verbatim>\<open>matched\<close> and \<^verbatim>\<open>missing\<close> built so far.\<close>

fun forEachSkill ::
  "(jstring \<Rightarrow> jstring) \<Rightarrow> StructuredText \<Rightarrow> jstring list \<Rightarrow> SkillMatch list \<Rightarrow> jstring list
     \<Rightarrow> (SkillMatch list \<times> jstring list) option" where
  "forEachSkill unicodeLower textData [] ms ns = Some (ms, ns)"
| "forEachSkill unicodeLower textData (sk # rest) ms ns =
     (case findSkillOccurrences unicodeLower textData sk of
        None \<Rightarrow> None
      | Some occs \<Rightarrow>
          if length occs > 0
          then forEachSkill unicodeLower textData rest
                 (ms @ [\<lparr>skill = sk, occurrences = occs, totalOccurrences = length occs\<rparr>]) ns
          else forEachSkill unicodeLower textData rest ms (ns @ [sk]))"

text \<open>\<^verbatim>\<open>fileNames[index]\<close>: \<open>None\<close> is \<^verbatim>\<open>undefined\<close>, also past the end of the array.\<close>

definition elementAt :: "'a option list \<Rightarrow> nat \<Rightarrow> 'a option" where
  "elementAt xs i = (if i < length xs then xs ! i else None)"

text \<open>\<^verbatim>\<open>name || `Resume ${index + 1}`\<close>: the empty string and \<^verbatim>\<open>undefined\<close> are falsy.\<close>

definition fileNameOr :: "jstring option \<Rightarrow> nat \<Rightarrow> jstring" where
  "fileNameOr name index =
     (case name of
        None \<Rightarrow> (units ''Resume '') @ showNat (index + 1)
      | Some n \<Rightarrow> if n = [] then (units ''Resume '') @ showNat (index + 1) else n)"

text \<open>The body of \<^verbatim>\<open>resumeTexts.map((textData, index) => ...)\<close>, lines 79 to 110.\<close>

definition analyzeResume ::
  "(jstring \<Rightarrow> jstring) \<Rightarrow> jstring list \<Rightarrow> jstring option list \<Rightarrow> StructuredText \<Rightarrow> nat \<Rightarrow> ResumeResult option" where
  "analyzeResume unicodeLower skillsArray fileNames textData index =
     (case forEachSkill unicodeLower textData skillsArray [] [] of
        None \<Rightarrow> None
      | Some (ms, ns) \<Rightarrow>
          let percentage =
                Math_round (jsTimes (jsDivide (of_nat (length ms)) (of_nat (length skillsArray))) 100);
              isEligible = (percentage \<ge> 60)
          in Some \<lparr>fileName = fileNameOr (elementAt fileNames index) index,
                   eligible = JBool isEligible,
                   matchPercentage = JNum (of_int percentage),
                   matched = ms,
                   missing = ns,
                   summary = JStr ((units ''Found '') @ showNat (length ms) @ (units ''/'')
                                    @ showNat (length skillsArray) @ (units '' required skills'')),
                   r_totalLines = totalLines textData,
                   r_estimatedPages = estimatedPages textData\<rparr>)"

fun mapResumes ::
  "(StructuredText \<Rightarrow> nat \<Rightarrow> ResumeResult option) \<Rightarrow> StructuredText list \<Rightarrow> nat
     \<Rightarrow> ResumeResult list option" where
  "mapResumes f [] index = Some []"
| "mapResumes f (textData # rest) index =
     (case f textData index of
        None \<Rightarrow> None
      | Some r \<Rightarrow>
          (case mapResumes f rest (Suc index) of
             None \<Rightarrow> None
           | Some rs \<Rightarrow> Some (r # rs)))"

definition analyzeSkills ::
  "(jstring \<Rightarrow> jstring) \<Rightarrow> StructuredText list \<Rightarrow> jstring \<Rightarrow> jstring option list \<Rightarrow> ResumeResult list option" where
  "analyzeSkills unicodeLower resumeTexts requiredSkills fileNames =
     (let skillsArray = skillsArrayOf requiredSkills
      in mapResumes (analyzeResume unicodeLower skillsArray fileNames) resumeTexts 0)"

subsection \<open>What the scorer returns, and when\<close>

lemma split_not_Nil [simp]: "split sep s \<noteq> []"
  by (subst split.simps) (simp split: list.split)

lemma skillsArrayOf_not_Nil [simp]: "skillsArrayOf requiredSkills \<noteq> []"
  by (simp add: skillsArrayOf_def)

lemma forEachSkill_returns:
  "[] \<notin> set (map (toLowerCase unicodeLower) sks) \<Longrightarrow>
     \<exists>res. forEachSkill unicodeLower textData sks ms ns = Some res"
proof (induction sks arbitrary: ms ns)
  case Nil
  then show ?case by simp
next
  case (Cons sk rest)
  then have "toLowerCase unicodeLower sk \<noteq> []"
    and "[] \<notin> set (map (toLowerCase unicodeLower) rest)" by auto
  with Cons.IH show ?case
    by (simp add: findSkillOccurrences_nonempty)
qed

text \<open>An empty skill in the list stops the scorer on every text that has a line.\<close>

lemma forEachSkill_empty_skill:
  "[] \<in> set sks \<Longrightarrow> lines textData \<noteq> [] \<Longrightarrow>
     forEachSkill unicodeLower textData sks ms ns = None"
proof (induction sks arbitrary: ms ns)
  case Nil
  then show ?case by simp
next
  case (Cons sk rest)
  show ?case
  proof (cases "sk = []")
    case True
    with Cons.prems(2) show ?thesis by (simp add: findSkillOccurrences_empty_skill)
  next
    case False
    with Cons.prems have "[] \<in> set rest" by auto
    from Cons.IH [OF this Cons.prems(2)] show ?thesis by (simp split: option.splits)
  qed
qed

lemma forEachSkill_partition:
  "forEachSkill unicodeLower textData sks ms ns = Some (ms', ns') \<Longrightarrow>
     length ms' + length ns' = length ms + length ns + length sks
   \<and> mset (map skill ms') + mset ns' = mset (map skill ms) + mset ns + mset sks"
proof (induction sks arbitrary: ms ns)
  case Nil
  then show ?case by simp
next
  case (Cons sk rest)
  from Cons.prems obtain occs where occs: "findSkillOccurrences unicodeLower textData sk = Some occs"
    by (auto split: option.splits)
  show ?case
  proof (cases "length occs > 0")
    case True
    with Cons.prems occs
    have "forEachSkill unicodeLower textData rest
            (ms @ [\<lparr>skill = sk, occurrences = occs, totalOccurrences = length occs\<rparr>]) ns
          = Some (ms', ns')" by simp
    from Cons.IH [OF this] show ?thesis by simp
  next
    case False
    with Cons.prems occs
    have "forEachSkill unicodeLower textData rest ms (ns @ [sk]) = Some (ms', ns')" by simp
    from Cons.IH [OF this] show ?thesis by simp
  qed
qed

lemma mapResumes_Some_iff:
  "mapResumes f tds i = Some rs \<longleftrightarrow>
     length rs = length tds \<and> (\<forall>j < length tds. f (tds ! j) (i + j) = Some (rs ! j))"
proof (induction tds arbitrary: i rs)
  case Nil
  then show ?case by auto
next
  case (Cons td rest)
  show ?case
  proof (cases rs)
    case Nil
    then show ?thesis by (auto split: option.splits)
  next
    case (Cons r rs')
    have "(\<forall>j < Suc (length rest). f ((td # rest) ! j) (i + j) = Some ((r # rs') ! j))
          \<longleftrightarrow> f td i = Some r \<and> (\<forall>j < length rest. f (rest ! j) (Suc i + j) = Some (rs' ! j))"
      by (auto simp: less_Suc_eq_0_disj)
    with Cons Cons.IH [of "Suc i" rs'] show ?thesis
      by (auto split: option.splits)
  qed
qed

lemma mapResumes_returns:
  "(\<And>td j. \<exists>r. f td j = Some r) \<Longrightarrow> \<exists>rs. mapResumes f tds i = Some rs"
proof (induction tds arbitrary: i)
  case Nil
  then show ?case by simp
next
  case (Cons td rest)
  from Cons.prems obtain r where "f td i = Some r" by blast
  moreover from Cons.IH [OF Cons.prems] obtain rs where "mapResumes f rest (Suc i) = Some rs"
    by blast
  ultimately show ?case by simp
qed

lemma analyzeResume_returns:
  "[] \<notin> set (map (toLowerCase unicodeLower) skillsArray) \<Longrightarrow>
     \<exists>r. analyzeResume unicodeLower skillsArray fileNames textData index = Some r"
  using forEachSkill_returns [of unicodeLower skillsArray textData "[]" "[]"]
  by (auto simp: analyzeResume_def Let_def)

lemma analyzeSkills_returns:
  "[] \<notin> set (map (toLowerCase unicodeLower) (skillsArrayOf requiredSkills)) \<Longrightarrow>
     \<exists>results. analyzeSkills unicodeLower resumeTexts requiredSkills fileNames = Some results"
  unfolding analyzeSkills_def Let_def
  by (rule mapResumes_returns) (rule analyzeResume_returns)

lemma analyzeSkills_empty_skill:
  assumes "[] \<in> set (skillsArrayOf requiredSkills)" and "lines textData \<noteq> []"
  shows "analyzeSkills unicodeLower (textData # rest) requiredSkills fileNames = None"
  using forEachSkill_empty_skill [OF assms, of unicodeLower "[]" "[]"]
  by (simp add: analyzeSkills_def analyzeResume_def)

lemma analyzeSkills_nth:
  assumes "analyzeSkills unicodeLower resumeTexts requiredSkills fileNames = Some results"
  shows "length results = length resumeTexts"
    and "j < length resumeTexts \<Longrightarrow>
           analyzeResume unicodeLower (skillsArrayOf requiredSkills) fileNames (resumeTexts ! j) j
             = Some (results ! j)"
  using assms by (simp_all add: analyzeSkills_def Let_def mapResumes_Some_iff)

lemma analyzeResume_fields:
  assumes "analyzeResume unicodeLower skillsArray fileNames textData index = Some r"
  shows "forEachSkill unicodeLower textData skillsArray [] [] = Some (matched r, missing r)"
    and "fileName r = fileNameOr (elementAt fileNames index) index"
    and "matchPercentage r = JNum (of_int (Math_round (jsTimes
           (jsDivide (of_nat (length (matched r))) (of_nat (length skillsArray))) 100)))"
    and "eligible r = JBool (Math_round (jsTimes
           (jsDivide (of_nat (length (matched r))) (of_nat (length skillsArray))) 100) \<ge> 60)"
    and "summary r = JStr ((units ''Found '') @ showNat (length (matched r)) @ (units ''/'')
                            @ showNat (length skillsArray) @ (units '' required skills''))"
    and "r_totalLines r = totalLines textData"
    and "r_estimatedPages r = estimatedPages textData"
  using assms by (auto simp: analyzeResume_def Let_def split: option.splits)

section \<open>Properties of the Deterministic Scorer\<close>

text \<open>
  Whenever no requested skill has an empty lower-case form, \<^verbatim>\<open>analyzeSkills\<close> returns; and
  whenever it returns, there is one result per resume and in each result the lengths of
  \<^verbatim>\<open>matched\<close> and \<^verbatim>\<open>missing\<close> add up to the number of requested skills, the skills of
  \<^verbatim>\<open>matched\<close> together with \<^verbatim>\<open>missing\<close> being the requested skills with their multiplicity.
\<close>

lemma analyzeSkills_partition_when_returns:
  "([] \<notin> set (map (toLowerCase unicodeLower) (skillsArrayOf requiredSkills)) \<longrightarrow>
      (\<exists>results. analyzeSkills unicodeLower resumeTexts requiredSkills fileNames = Some results))
   \<and> (\<forall>results. analyzeSkills unicodeLower resumeTexts requiredSkills fileNames = Some results \<longrightarrow>
        length results = length resumeTexts
        \<and> (\<forall>r \<in> set results.
              length (matched r) + length (missing r) = length (skillsArrayOf requiredSkills)
              \<and> mset (map skill (matched r)) + mset (missing r)
                  = mset (skillsArrayOf requiredSkills)))"
proof (intro conjI impI allI ballI)
  assume "[] \<notin> set (map (toLowerCase unicodeLower) (skillsArrayOf requiredSkills))"
  then show "\<exists>results. analyzeSkills unicodeLower resumeTexts requiredSkills fileNames = Some results"
    by (rule analyzeSkills_returns)
next
  fix results
  assume res: "analyzeSkills unicodeLower resumeTexts requiredSkills fileNames = Some results"
  from analyzeSkills_nth(1) [OF res] show "length results = length resumeTexts" .
  fix r
  assume "r \<in> set results"
  then obtain j where j: "j < length results" and r: "results ! j = r"
    by (auto simp: in_set_conv_nth)
  from analyzeSkills_nth [OF res] j r
  have "analyzeResume unicodeLower (skillsArrayOf requiredSkills) fileNames (resumeTexts ! j) j = Some r"
    by simp
  from forEachSkill_partition [OF analyzeResume_fields(1) [OF this]]
  show "length (matched r) + length (missing r) = length (skillsArrayOf requiredSkills)"
    and "mset (map skill (matched r)) + mset (missing r) = mset (skillsArrayOf requiredSkills)"
    by simp_all
qed

text \<open>
  C5. The specification says that for every non-empty skill list the scorer gives a
  result in which \<^verbatim>\<open>matched\<close> and \<^verbatim>\<open>missing\<close> partition the requested skills, and it keeps
  the empty skill of a trailing comma as an element of the list. For the skills
  \<^verbatim>\<open>Python,\<close> the list is \<^verbatim>\<open>Python\<close> and the empty skill, and on a resume of one line the
  scorer gives no result at all: the search for the empty skill never returns (C1).
\<close>

theorem analyzeSkills_trailing_comma_never_returns:
  "skillsArrayOf (units ''Python,'') = [units ''Python'', []]
   \<and> analyzeSkills unicodeLower
        [\<lparr>fullText = units ''Python'',
          lines = [\<lparr>lineNumber = 1, content = units ''Python'', estimatedPage = 1\<rparr>],
          totalLines = 1, estimatedPages = 1\<rparr>]
        (units ''Python,'') [Some (units ''cv.pdf'')] = None"
proof -
  have sk: "skillsArrayOf (units ''Python,'') = [units ''Python'', []]" by code_simp
  then have "[] \<in> set (skillsArrayOf (units ''Python,''))" by simp
  from analyzeSkills_empty_skill [OF this] sk show ?thesis by simp
qed

text \<open>
  C10. In the result of \<^verbatim>\<open>analyzeSkills\<close> for the resume at index \<open>i\<close>, when the file name
  supplied at that index is absent (\<^verbatim>\<open>undefined\<close>, or the array is shorter) or the empty
  string, the field \<^verbatim>\<open>fileName\<close> is \<^verbatim>\<open>Resume\<close> followed by a space and the decimal
  numeral of \<open>i + 1\<close>. The scorer returns whenever no requested skill has an empty
  lower-case form.
\<close>

theorem analyzeSkills_default_fileName:
  "([] \<notin> set (map (toLowerCase unicodeLower) (skillsArrayOf requiredSkills)) \<longrightarrow>
      (\<exists>results. analyzeSkills unicodeLower resumeTexts requiredSkills fileNames = Some results))
   \<and> (\<forall>results i. analyzeSkills unicodeLower resumeTexts requiredSkills fileNames = Some results
         \<and> i < length resumeTexts
         \<and> (elementAt fileNames i = None \<or> elementAt fileNames i = Some [])
        \<longrightarrow> fileName (results ! i) = units ''Resume '' @ showNat (i + 1))"
proof (intro conjI impI allI)
  assume "[] \<notin> set (map (toLowerCase unicodeLower) (skillsArrayOf requiredSkills))"
  then show "\<exists>results. analyzeSkills unicodeLower resumeTexts requiredSkills fileNames = Some results"
    by (rule analyzeSkills_returns)
next
  fix results i
  assume a: "analyzeSkills unicodeLower resumeTexts requiredSkills fileNames = Some results
         \<and> i < length resumeTexts
         \<and> (elementAt fileNames i = None \<or> elementAt fileNames i = Some [])"
  then have "analyzeResume unicodeLower (skillsArrayOf requiredSkills) fileNames (resumeTexts ! i) i
               = Some (results ! i)"
    using analyzeSkills_nth(2) by blast
  from analyzeResume_fields(2) [OF this] a
  show "fileName (results ! i) = units ''Resume '' @ showNat (i + 1)"
    by (auto simp: fileNameOr_def)
qed

text \<open>Twelve resumes, of which only the first has a name: the second, whose name is the
  empty string, becomes \<^verbatim>\<open>Resume 2\<close> and the last, whose name is absent,
  \<^verbatim>\<open>Resume 12\<close>.\<close>

theorem analyzeSkills_default_fileName_witness:
  "map_option (map fileName)
     (analyzeSkills exampleLower
        (replicate 12 \<lparr>fullText = units ''a'',
           lines = [\<lparr>lineNumber = 1, content = units ''a'', estimatedPage = 1\<rparr>],
           totalLines = 1, estimatedPages = 1\<rparr>)
        (units ''a'') [Some (units ''cv.pdf''), Some [], None])
    = Some [units ''cv.pdf'', units ''Resume 2'', units ''Resume 3'', units ''Resume 4'', units ''Resume 5'', units ''Resume 6'',
            (units ''Resume 7''), units ''Resume 8'', units ''Resume 9'', units ''Resume 10'', units ''Resume 11'', units ''Resume 12'']
   \<and> elementAt [Some (units ''cv.pdf''), Some [], None] 1 = Some []
   \<and> elementAt [Some (units ''cv.pdf''), Some [], None] 11 = None
   \<and> (\<exists>results. analyzeSkills exampleLower
        (replicate 12 \<lparr>fullText = units ''a'',
           lines = [\<lparr>lineNumber = 1, content = units ''a'', estimatedPage = 1\<rparr>],
           totalLines = 1, estimatedPages = 1\<rparr>)
        (units ''a'') [Some (units ''cv.pdf''), Some [], None] = Some results
        \<and> fileName (results ! 1) = units ''Resume '' @ showNat (1 + 1)
        \<and> fileName (results ! 11) = units ''Resume '' @ showNat (11 + 1))"
proof -
  let ?tds = "replicate 12 \<lparr>fullText = units ''a'',
           lines = [\<lparr>lineNumber = 1, content = units ''a'', estimatedPage = 1\<rparr>],
           totalLines = 1, estimatedPages = 1\<rparr>"
  let ?names = "[Some (units ''cv.pdf''), Some [], None]"
  have names: "map_option (map fileName) (analyzeSkills exampleLower ?tds (units ''a'') ?names)
    = Some [units ''cv.pdf'', units ''Resume 2'', units ''Resume 3'', units ''Resume 4'', units ''Resume 5'', units ''Resume 6'',
            (units ''Resume 7''), units ''Resume 8'', units ''Resume 9'', units ''Resume 10'', units ''Resume 11'', units ''Resume 12'']"
    by code_simp
  have e1: "elementAt ?names 1 = Some []" and e11: "elementAt ?names 11 = None"
    by (simp_all add: elementAt_def)
  from names obtain results where res: "analyzeSkills exampleLower ?tds (units ''a'') ?names = Some results"
    by auto
  have len: "(1::nat) < length ?tds" "(11::nat) < length ?tds" by simp_all
  from analyzeSkills_default_fileName
      [where unicodeLower = exampleLower and requiredSkills = "units ''a''"
         and resumeTexts = ?tds and fileNames = ?names] res len(1) e1
  have "fileName (results ! 1) = units ''Resume '' @ showNat (1 + 1)" by blast
  moreover from analyzeSkills_default_fileName
      [where unicodeLower = exampleLower and requiredSkills = "units ''a''"
         and resumeTexts = ?tds and fileNames = ?names] res len(2) e11
  have "fileName (results ! 11) = units ''Resume '' @ showNat (11 + 1)" by blast
  ultimately show ?thesis using names e1 e11 res by blast
qed

lemma forEachSkill_replicate_found:
  assumes "findSkillOccurrences unicodeLower textData sk = Some occs" and "occs \<noteq> []"
  shows "forEachSkill unicodeLower textData (replicate k sk @ rest) ms ns
         = forEachSkill unicodeLower textData rest
             (ms @ replicate k \<lparr>skill = sk, occurrences = occs, totalOccurrences = length occs\<rparr>)
             ns"
  using assms by (induction k arbitrary: ms) (simp_all add: replicate_app_Cons_same)

lemma forEachSkill_replicate_missing:
  assumes "findSkillOccurrences unicodeLower textData sk = Some []"
  shows "forEachSkill unicodeLower textData (replicate k sk @ rest) ms ns
         = forEachSkill unicodeLower textData rest ms (ns @ replicate k sk)"
  using assms by (induction k arbitrary: ns) (simp_all add: replicate_app_Cons_same)

text \<open>The verdict is the comparison of the computed percentage with 60.\<close>

lemma analyzeSkills_eligible_threshold:
  assumes "analyzeSkills unicodeLower resumeTexts requiredSkills fileNames = Some rs" and "r \<in> set rs"
  shows "\<exists>p. p = Math_round (jsTimes (jsDivide (of_nat (length (matched r)))
                     (of_nat (length (skillsArrayOf requiredSkills)))) 100)
             \<and> matchPercentage r = JNum (of_int p) \<and> eligible r = JBool (60 \<le> p)"
proof -
  from assms(2) obtain j where j: "j < length rs" and r: "rs ! j = r"
    by (auto simp: in_set_conv_nth)
  from analyzeSkills_nth [OF assms(1)] j r
  have "analyzeResume unicodeLower (skillsArrayOf requiredSkills) fileNames (resumeTexts ! j) j = Some r"
    by simp
  from analyzeResume_fields(3,4) [OF this] show ?thesis by simp
qed

text \<open>
  C4. The specification says that \<^verbatim>\<open>matchPercentage\<close> is \<open>100 * matched / skills\<close> rounded half up.
  The source computes \<^verbatim>\<open>Math.round((matched.length / skillsArray.length) * 100)\<close> on
  doubles: the quotient is rounded before it is multiplied. With 23 of 40 skills matched
  the exact percentage is 57.5, which rounds half up to 58; the double \<open>23 / 40\<close> lies
  below 0.575, its product with 100 lies below 57.5, and the result is 57.
\<close>

theorem analyzeSkills_percentage_23_of_40:
  "map_option (map (\<lambda>r. (length (matched r), length (missing r), matchPercentage r, eligible r)))
     (analyzeSkills exampleLower
        [\<lparr>fullText = units ''a'',
          lines = [\<lparr>lineNumber = 1, content = units ''a'', estimatedPage = 1\<rparr>],
          totalLines = 1, estimatedPages = 1\<rparr>]
        (concat (replicate 23 (units ''a,'')) @ concat (replicate 16 (units ''b,'')) @ (units ''b''))
        [Some (units ''cv.pdf'')])
   = Some [(23, 17, JNum 57, JBool False)]
   \<and> \<lfloor>(100 * 23 / 40 :: rat) + 1 / 2\<rfloor> = 58"
proof -
  let ?td = "\<lparr>fullText = units ''a'',
          lines = [\<lparr>lineNumber = 1, content = units ''a'', estimatedPage = 1\<rparr>],
          totalLines = 1, estimatedPages = 1\<rparr>"
  have sk: "skillsArrayOf (concat (replicate 23 (units ''a,'')) @ concat (replicate 16 (units ''b,'')) @ (units ''b''))
            = replicate 23 (units ''a'') @ replicate 17 (units ''b'') @ []"
    by code_simp
  have a: "findSkillOccurrences exampleLower ?td (units ''a'')
           = Some [\<lparr>o_lineNumber = 1, o_estimatedPage = 1, o_context = units ''a''\<rparr>]"
    by code_simp
  have b: "findSkillOccurrences exampleLower ?td (units ''b'') = Some []"
    by code_simp
  have pct: "Math_round (jsTimes (jsDivide 23 40) 100) = 57"
    by code_simp
  have loop: "forEachSkill exampleLower ?td (replicate 23 (units ''a'') @ replicate 17 (units ''b'') @ []) [] []
        = Some (replicate 23 \<lparr>skill = units ''a'',
                   occurrences = [\<lparr>o_lineNumber = 1, o_estimatedPage = 1, o_context = units ''a''\<rparr>],
                   totalOccurrences = 1\<rparr>,
                replicate 17 (units ''b''))"
  proof -
    have "forEachSkill exampleLower ?td (replicate 23 (units ''a'') @ replicate 17 (units ''b'') @ []) [] []
          = forEachSkill exampleLower ?td (replicate 17 (units ''b'') @ [])
              ([] @ replicate 23 \<lparr>skill = units ''a'',
                 occurrences = [\<lparr>o_lineNumber = 1, o_estimatedPage = 1, o_context = units ''a''\<rparr>],
                 totalOccurrences =
                   length [\<lparr>o_lineNumber = 1, o_estimatedPage = 1, o_context = units ''a''\<rparr>]\<rparr>) []"
      by (rule forEachSkill_replicate_found [OF a]) simp
    also have "\<dots> = forEachSkill exampleLower ?td []
              ([] @ replicate 23 \<lparr>skill = units ''a'',
                 occurrences = [\<lparr>o_lineNumber = 1, o_estimatedPage = 1, o_context = units ''a''\<rparr>],
                 totalOccurrences =
                   length [\<lparr>o_lineNumber = 1, o_estimatedPage = 1, o_context = units ''a''\<rparr>]\<rparr>)
              ([] @ replicate 17 (units ''b''))"
      by (rule forEachSkill_replicate_missing [OF b])
    also have "\<dots> = Some (replicate 23 \<lparr>skill = units ''a'',
                   occurrences = [\<lparr>o_lineNumber = 1, o_estimatedPage = 1, o_context = units ''a''\<rparr>],
                   totalOccurrences = 1\<rparr>,
                replicate 17 (units ''b''))"
      by simp
    finally show ?thesis .
  qed
  have "analyzeResume exampleLower (replicate 23 (units ''a'') @ replicate 17 (units ''b'') @ []) [Some (units ''cv.pdf'')] ?td 0
        = Some \<lparr>fileName = units ''cv.pdf'', eligible = JBool False, matchPercentage = JNum 57,
                 matched = replicate 23 \<lparr>skill = units ''a'',
                   occurrences = [\<lparr>o_lineNumber = 1, o_estimatedPage = 1, o_context = units ''a''\<rparr>],
                   totalOccurrences = 1\<rparr>,
                 missing = replicate 17 (units ''b''),
                 summary = JStr ((units ''Found '') @ showNat 23 @ (units ''/'') @ showNat 40 @ (units '' required skills'')),
                 r_totalLines = 1, r_estimatedPages = 1\<rparr>"
    unfolding analyzeResume_def loop
    by (simp add: pct elementAt_def fileNameOr_def units_def)
  then have "map_option (map (\<lambda>r. (length (matched r), length (missing r), matchPercentage r, eligible r)))
     (analyzeSkills exampleLower [?td] (concat (replicate 23 (units ''a,'')) @ concat (replicate 16 (units ''b,'')) @ (units ''b''))
        [Some (units ''cv.pdf'')])
   = Some [(23, 17, JNum 57, JBool False)]"
    unfolding analyzeSkills_def sk by simp
  moreover have "\<lfloor>(100 * 23 / 40 :: rat) + 1 / 2\<rfloor> = 58" by simp
  ultimately show ?thesis by (intro conjI)
qed

section \<open>Enhanced Scorer: \<^verbatim>\<open>analyzeSkillsWithAI\<close>\<close>

text \<open>
  The judge is outside the program. What one call of \<^verbatim>\<open>model.generateContent\<close> and the
  reading of the text of its response come to is either an exception or a text; the model
  is given as a function of the number of the call and of the prompt. \<^verbatim>\<open>genAI\<close> is
  \<open>None\<close> when no key is configured; a client either hands out a model or fails to.
\<close>

datatype judge_reply = CallFails | ReplyText jstring

type_synonym gen_model = "nat \<Rightarrow> jstring \<Rightarrow> judge_reply"

datatype gen_client = ModelUnavailable | Model gen_model

text \<open>\<^verbatim>\<open>String.prototype.replace\<close> with a global pattern that is a fixed non-empty text and
  the empty replacement: the matches are removed from left to right.\<close>

function removeAll :: "jstring \<Rightarrow> jstring \<Rightarrow> jstring" where
  "removeAll pat s =
     (if pat = [] \<or> s = [] then s
      else if take (length pat) s = pat then removeAll pat (drop (length pat) s)
      else hd s # removeAll pat (tl s))"
  by pat_completeness auto
termination
  by (relation "measure (\<lambda>(pat, s). length s)") (auto simp: length_greater_0_conv)

declare removeAll.simps [simp del]

definition stripFences :: "jstring \<Rightarrow> jstring" where
  "stripFences text = trim (removeAll (units ''```'') (removeAll (units ''```json'') text))"

text \<open>The prompt of lines 129 to 139.\<close>

definition judgePrompt :: "jstring \<Rightarrow> StructuredText \<Rightarrow> jstring" where
  "judgePrompt requiredSkills textData =
     (units ''Analyze this resume for skills: '') @ requiredSkills @ [10, 10]
     @ (units ''RESUME: '') @ fullText textData @ [10, 10]
     @ (units ''Rate overall match percentage (0-100) and determine eligibility (60%+ threshold).'')
     @ [10] @ (units ''Respond in JSON format:'') @ [10] @ (units ''{'') @ [10]
     @ (units ''  '') @ [34] @ (units ''overall_score'') @ [34] @ (units '': 85,'') @ [10]
     @ (units ''  '') @ [34] @ (units ''eligible'') @ [34] @ (units '': true,'') @ [10]
     @ (units ''  '') @ [34] @ (units ''summary'') @ [34] @ (units '': '') @ [34]
     @ (units ''brief summary'') @ [34] @ [10] @ (units ''}'')"

text \<open>
  Reading one of the properties \<^verbatim>\<open>overall_score\<close>, \<^verbatim>\<open>eligible\<close>, \<^verbatim>\<open>summary\<close> of a parsed
  value: a \<^verbatim>\<open>TypeError\<close> (\<open>None\<close>) on \<^verbatim>\<open>null\<close> and \<^verbatim>\<open>undefined\<close>, the value stored under the
  key in an object, and \<^verbatim>\<open>undefined\<close> when the object has no such key or the value is a
  number, a boolean, a string or an array.
\<close>

fun getProperty :: "jsval \<Rightarrow> jstring \<Rightarrow> jsval option" where
  "getProperty JUndefined key = None"
| "getProperty JNull key = None"
| "getProperty (JObj properties) key =
     Some (case map_of properties key of None \<Rightarrow> JUndefined | Some v \<Rightarrow> v)"
| "getProperty v key = Some JUndefined"

text \<open>
  The \<^verbatim>\<open>try\<close> block of lines 141 to 159 for one resume, given what the call of the judge
  came to: the result pushed to \<^verbatim>\<open>results\<close>. \<^verbatim>\<open>JSON.parse\<close> is a parameter; \<open>None\<close> is its
  \<^verbatim>\<open>SyntaxError\<close>. Every exception ends in the \<^verbatim>\<open>catch\<close>, which pushes \<^verbatim>\<open>basicResult\<close>.
\<close>

definition judgeResume ::
  "(jstring \<Rightarrow> jsval option) \<Rightarrow> judge_reply \<Rightarrow> ResumeResult \<Rightarrow> ResumeResult" where
  "judgeResume JSON_parse reply basicResult =
     (case reply of
        CallFails \<Rightarrow> basicResult
      | ReplyText text \<Rightarrow>
          (case JSON_parse (stripFences text) of
             None \<Rightarrow> basicResult
           | Some aiResult \<Rightarrow>
               (case (getProperty aiResult (units ''overall_score''), getProperty aiResult (units ''eligible''),
                      getProperty aiResult (units ''summary'')) of
                  (Some overall_score, Some eligible', Some summary') \<Rightarrow>
                    basicResult\<lparr>matchPercentage := overall_score,
                                 eligible := eligible',
                                 summary := summary'\<rparr>
                | _ \<Rightarrow> basicResult)))"

text \<open>
  The \<^verbatim>\<open>for\<close> loop of lines 125 to 160. The call \<^verbatim>\<open>analyzeSkills([textData], requiredSkills,
  [fileNames[i]])\<close> returns an array of one result, of which \<^verbatim>\<open>[0]\<close> is taken.
\<close>

function aiLoop ::
  "(jstring \<Rightarrow> jstring) \<Rightarrow> gen_model \<Rightarrow> (jstring \<Rightarrow> jsval option) \<Rightarrow> StructuredText list \<Rightarrow> jstring
     \<Rightarrow> jstring option list \<Rightarrow> nat \<Rightarrow> ResumeResult list \<Rightarrow> ResumeResult list option" where
  "aiLoop unicodeLower model JSON_parse resumeTexts requiredSkills fileNames i acc =
     (if i < length resumeTexts then
        (case analyzeSkills unicodeLower [resumeTexts ! i] requiredSkills [elementAt fileNames i] of
           None \<Rightarrow> None
         | Some basicResults \<Rightarrow>
             aiLoop unicodeLower model JSON_parse resumeTexts requiredSkills fileNames (i + 1)
               (acc @ [judgeResume JSON_parse
                         (model i (judgePrompt requiredSkills (resumeTexts ! i)))
                         (basicResults ! 0)]))
      else Some acc)"
  by pat_completeness auto
termination
  by (relation "measure (\<lambda>(unicodeLower, model, JSON_parse, resumeTexts, requiredSkills,
        fileNames, i, acc).
        length resumeTexts - i)") auto

declare aiLoop.simps [simp del]

definition analyzeSkillsWithAI ::
  "(jstring \<Rightarrow> jstring) \<Rightarrow> gen_client option \<Rightarrow> (jstring \<Rightarrow> jsval option) \<Rightarrow> StructuredText list \<Rightarrow> jstring
     \<Rightarrow> jstring option list \<Rightarrow> ResumeResult list option" where
  "analyzeSkillsWithAI unicodeLower genAI JSON_parse resumeTexts requiredSkills fileNames =
     (case genAI of
        None \<Rightarrow> analyzeSkills unicodeLower resumeTexts requiredSkills fileNames
      | Some client \<Rightarrow>
          (case client of
             ModelUnavailable \<Rightarrow> analyzeSkills unicodeLower resumeTexts requiredSkills fileNames
           | Model model \<Rightarrow> aiLoop unicodeLower model JSON_parse resumeTexts requiredSkills fileNames 0 []))"

subsection \<open>The result of the loop\<close>

lemma analyzeResume_other_name:
  assumes "analyzeResume unicodeLower skillsArray fileNames textData index = Some r"
  shows "analyzeResume unicodeLower skillsArray fileNames' textData index'
         = Some (r\<lparr>fileName := fileNameOr (elementAt fileNames' index') index'\<rparr>)"
  using assms by (auto simp: analyzeResume_def Let_def split: option.splits)

lemma analyzeSkills_single:
  "analyzeSkills unicodeLower [textData] requiredSkills [name]
   = map_option (\<lambda>r. [r]) (analyzeResume unicodeLower (skillsArrayOf requiredSkills) [name] textData 0)"
  by (simp add: analyzeSkills_def Let_def split: option.splits)

lemma analyzeSkills_single_of_batch:
  assumes "analyzeSkills unicodeLower resumeTexts requiredSkills fileNames = Some det"
    and "j < length resumeTexts"
  shows "analyzeSkills unicodeLower [resumeTexts ! j] requiredSkills [elementAt fileNames j]
         = Some [(det ! j)\<lparr>fileName := fileNameOr (elementAt fileNames j) 0\<rparr>]"
proof -
  from analyzeSkills_nth(2) [OF assms]
  have "analyzeResume unicodeLower (skillsArrayOf requiredSkills) fileNames (resumeTexts ! j) j
          = Some (det ! j)" .
  from analyzeResume_other_name [OF this, of "[elementAt fileNames j]" 0]
  show ?thesis by (simp add: analyzeSkills_single elementAt_def)
qed

lemma aiLoop_eq:
  assumes "\<And>j. j < length resumeTexts \<Longrightarrow>
             analyzeSkills unicodeLower [resumeTexts ! j] requiredSkills [elementAt fileNames j] = Some [b j]"
  shows "aiLoop unicodeLower model JSON_parse resumeTexts requiredSkills fileNames i acc
         = Some (acc @ map (\<lambda>j. judgeResume JSON_parse
                                  (model j (judgePrompt requiredSkills (resumeTexts ! j))) (b j))
                         [i ..< length resumeTexts])"
  using assms
proof (induction unicodeLower model JSON_parse resumeTexts requiredSkills fileNames i acc
    rule: aiLoop.induct)
  case (1 unicodeLower model JSON_parse resumeTexts requiredSkills fileNames i acc)
  show ?case
  proof (cases "i < length resumeTexts")
    case True
    from "1.prems" [OF True] "1.IH" [OF True _ "1.prems"] True show ?thesis
      by (subst aiLoop.simps) (simp add: upt_conv_Cons)
  next
    case False
    then show ?thesis by (subst aiLoop.simps) simp
  qed
qed

lemma aiLoop_None:
  assumes "j < length resumeTexts" and "i \<le> j"
    and "analyzeSkills unicodeLower [resumeTexts ! j] requiredSkills [elementAt fileNames j] = None"
  shows "aiLoop unicodeLower model JSON_parse resumeTexts requiredSkills fileNames i acc = None"
  using assms
proof (induction unicodeLower model JSON_parse resumeTexts requiredSkills fileNames i acc
    rule: aiLoop.induct)
  case (1 unicodeLower model JSON_parse resumeTexts requiredSkills fileNames i acc)
  from "1.prems" have lt: "i < length resumeTexts" by simp
  show ?case
  proof (cases "analyzeSkills unicodeLower [resumeTexts ! i] requiredSkills [elementAt fileNames i]")
    case None
    with lt show ?thesis by (subst aiLoop.simps) simp
  next
    case (Some bs)
    with "1.prems" have "i \<noteq> j" by auto
    with "1.prems" have "i + 1 \<le> j" by simp
    from "1.IH" [OF lt Some "1.prems"(1) this "1.prems"(3)] lt Some show ?thesis
      by (subst aiLoop.simps) simp
  qed
qed

text \<open>The replies after which the \<^verbatim>\<open>try\<close> block throws: the call fails, the text does not
  parse, or it parses to a value whose properties cannot be read.\<close>

definition judgeFails :: "(jstring \<Rightarrow> jsval option) \<Rightarrow> judge_reply \<Rightarrow> bool" where
  "judgeFails JSON_parse reply =
     (case reply of
        CallFails \<Rightarrow> True
      | ReplyText text \<Rightarrow>
          (case JSON_parse (stripFences text) of
             None \<Rightarrow> True
           | Some aiResult \<Rightarrow> aiResult = JNull \<or> aiResult = JUndefined))"

lemma judgeResume_fails: "judgeFails JSON_parse reply \<Longrightarrow> judgeResume JSON_parse reply b = b"
  by (auto simp: judgeFails_def judgeResume_def split: judge_reply.splits option.splits)

lemma analyzeSkillsWithAI_of_batch:
  assumes "analyzeSkills unicodeLower resumeTexts requiredSkills fileNames = Some det"
  shows "analyzeSkillsWithAI unicodeLower (Some (Model model)) JSON_parse resumeTexts requiredSkills fileNames
         = Some (map (\<lambda>j. judgeResume JSON_parse
                             (model j (judgePrompt requiredSkills (resumeTexts ! j)))
                             ((det ! j)\<lparr>fileName := fileNameOr (elementAt fileNames j) 0\<rparr>))
                    [0 ..< length resumeTexts])"
  using aiLoop_eq [where unicodeLower = unicodeLower and resumeTexts = resumeTexts
      and requiredSkills = requiredSkills and fileNames = fileNames
      and b = "\<lambda>j. (det ! j)\<lparr>fileName := fileNameOr (elementAt fileNames j) 0\<rparr>"
      and model = model and JSON_parse = JSON_parse and i = 0 and acc = "[]"]
    analyzeSkills_single_of_batch [OF assms]
  by (simp add: analyzeSkillsWithAI_def)

section \<open>Properties of the Enhanced Scorer\<close>

text \<open>A judge whose first reply is an empty JSON object inside a code fence and whose
  later calls fail, and a parser that knows the text of the empty object.\<close>

definition exampleJudge :: gen_model where
  "exampleJudge i prompt =
     (if i = 0 then ReplyText (units ''```json'' @ [10] @ units ''{}'' @ [10] @ units ''```'')
      else CallFails)"

definition exampleParse :: "jstring \<Rightarrow> jsval option" where
  "exampleParse s = (if s = (units ''{}'') then Some (JObj []) else None)"

text \<open>
  C2, as stated, fails: a reply that parses but lacks \<^verbatim>\<open>overall_score\<close>, \<^verbatim>\<open>eligible\<close> and
  \<^verbatim>\<open>summary\<close> is not rejected. The three fields of the result are overwritten with
  \<^verbatim>\<open>undefined\<close>, so the result differs from the one of \<^verbatim>\<open>analyzeSkills\<close>.
\<close>

theorem missing_fields_overwrite_result:
  "analyzeSkillsWithAI exampleLower (Some (Model exampleJudge)) exampleParse
     [\<lparr>fullText = units ''a'',
       lines = [\<lparr>lineNumber = 1, content = units ''a'', estimatedPage = 1\<rparr>],
       totalLines = 1, estimatedPages = 1\<rparr>] (units ''a'') [Some (units ''a.pdf'')]
   = Some [\<lparr>fileName = units ''a.pdf'', eligible = JUndefined, matchPercentage = JUndefined,
            matched = [\<lparr>skill = units ''a'',
                         occurrences = [\<lparr>o_lineNumber = 1, o_estimatedPage = 1,
                                         o_context = units ''a''\<rparr>],
                         totalOccurrences = 1\<rparr>],
            missing = [], summary = JUndefined, r_totalLines = 1, r_estimatedPages = 1\<rparr>]
   \<and> analyzeSkills exampleLower
     [\<lparr>fullText = units ''a'',
       lines = [\<lparr>lineNumber = 1, content = units ''a'', estimatedPage = 1\<rparr>],
       totalLines = 1, estimatedPages = 1\<rparr>] (units ''a'') [Some (units ''a.pdf'')]
   = Some [\<lparr>fileName = units ''a.pdf'', eligible = JBool True, matchPercentage = JNum 100,
            matched = [\<lparr>skill = units ''a'',
                         occurrences = [\<lparr>o_lineNumber = 1, o_estimatedPage = 1,
                                         o_context = units ''a''\<rparr>],
                         totalOccurrences = 1\<rparr>],
            missing = [], summary = JStr (units ''Found 1/1 required skills''),
            r_totalLines = 1, r_estimatedPages = 1\<rparr>]"
  by code_simp

text \<open>
  C2, amended. Let \<^verbatim>\<open>analyzeSkills\<close> return \<open>det\<close> on the batch, and let resume \<open>i\<close> have a
  non-empty file name. If the call of the judge for resume \<open>i\<close> fails, or its reply does not
  parse, or parses to \<^verbatim>\<open>null\<close>, then \<^verbatim>\<open>analyzeSkillsWithAI\<close> returns one result per resume and
  its result for resume \<open>i\<close> is \<open>det ! i\<close>; and the results for the other resumes do not
  depend on what the judge does at call \<open>i\<close>.
\<close>

theorem judge_failure_falls_back:
  assumes "analyzeSkills unicodeLower resumeTexts requiredSkills fileNames = Some det"
    and "i < length resumeTexts"
    and "elementAt fileNames i = Some n" and "n \<noteq> []"
    and "judgeFails JSON_parse (model i (judgePrompt requiredSkills (resumeTexts ! i)))"
  shows "\<exists>res. analyzeSkillsWithAI unicodeLower (Some (Model model)) JSON_parse
                  resumeTexts requiredSkills fileNames = Some res
           \<and> length res = length resumeTexts
           \<and> res ! i = det ! i
           \<and> (\<forall>model'. (\<forall>j p. j \<noteq> i \<longrightarrow> model' j p = model j p) \<longrightarrow>
                 (\<exists>res'. analyzeSkillsWithAI unicodeLower (Some (Model model')) JSON_parse
                            resumeTexts requiredSkills fileNames = Some res'
                    \<and> length res' = length resumeTexts
                    \<and> (\<forall>j < length resumeTexts. j \<noteq> i \<longrightarrow> res' ! j = res ! j)))"
proof -
  let ?b = "\<lambda>j. (det ! j)\<lparr>fileName := fileNameOr (elementAt fileNames j) 0\<rparr>"
  let ?res = "\<lambda>m. map (\<lambda>j. judgeResume JSON_parse
                             (m j (judgePrompt requiredSkills (resumeTexts ! j))) (?b j))
                    [0 ..< length resumeTexts]"
  have run: "analyzeSkillsWithAI unicodeLower (Some (Model m)) JSON_parse resumeTexts requiredSkills fileNames
             = Some (?res m)" for m
    by (rule analyzeSkillsWithAI_of_batch [OF assms(1)])
  have "fileName (det ! i) = fileNameOr (elementAt fileNames i) i"
    using analyzeResume_fields(2) [OF analyzeSkills_nth(2) [OF assms(1,2)]] .
  with assms(3,4) have "?b i = det ! i" by (simp add: fileNameOr_def)
  with assms(2,5) have at_i: "?res model ! i = det ! i"
    by (simp add: judgeResume_fails)
  have others: "\<forall>j < length resumeTexts. j \<noteq> i \<longrightarrow> ?res model' ! j = ?res model ! j"
    if "\<forall>j p. j \<noteq> i \<longrightarrow> model' j p = model j p" for model'
    using that by simp
  show ?thesis
  proof (intro exI conjI allI impI)
    show "analyzeSkillsWithAI unicodeLower (Some (Model model)) JSON_parse
            resumeTexts requiredSkills fileNames = Some (?res model)" by (rule run)
    show "length (?res model) = length resumeTexts" by simp
    show "?res model ! i = det ! i" by (rule at_i)
  next
    fix model' :: gen_model
    assume same: "\<forall>j p. j \<noteq> i \<longrightarrow> model' j p = model j p"
    show "analyzeSkillsWithAI unicodeLower (Some (Model model')) JSON_parse
            resumeTexts requiredSkills fileNames = Some (?res model')" by (rule run)
    show "length (?res model') = length resumeTexts" by simp
    fix j
    assume "j < length resumeTexts" and "j \<noteq> i"
    with others [OF same] show "?res model' ! j = ?res model ! j" by blast
  qed
qed

text \<open>Two resumes; the call of the judge for the second one fails.\<close>

theorem judge_failure_falls_back_witness:
  "analyzeSkills exampleLower
      [\<lparr>fullText = units ''a'', lines = [\<lparr>lineNumber = 1, content = units ''a'', estimatedPage = 1\<rparr>], totalLines = 1, estimatedPages = 1\<rparr>,
      \<lparr>fullText = units ''b'', lines = [\<lparr>lineNumber = 1, content = units ''b'', estimatedPage = 1\<rparr>], totalLines = 1, estimatedPages = 1\<rparr>] (units ''a'') [Some (units ''a.pdf''), Some (units ''b.pdf'')]
    = Some [\<lparr>fileName = units ''a.pdf'', eligible = JBool True, matchPercentage = JNum 100,
        matched = [\<lparr>skill = units ''a'',
                     occurrences = [\<lparr>o_lineNumber = 1, o_estimatedPage = 1, o_context = units ''a''\<rparr>],
                     totalOccurrences = 1\<rparr>],
        missing = [], summary = JStr (units ''Found 1/1 required skills''),
        r_totalLines = 1, r_estimatedPages = 1\<rparr>,
       \<lparr>fileName = units ''b.pdf'', eligible = JBool False, matchPercentage = JNum 0,
        matched = [], missing = [units ''a''], summary = JStr (units ''Found 0/1 required skills''),
        r_totalLines = 1, r_estimatedPages = 1\<rparr>]
   \<and> (1::nat) < length [\<lparr>fullText = units ''a'', lines = [\<lparr>lineNumber = 1, content = units ''a'', estimatedPage = 1\<rparr>], totalLines = 1, estimatedPages = 1\<rparr>,
      \<lparr>fullText = units ''b'', lines = [\<lparr>lineNumber = 1, content = units ''b'', estimatedPage = 1\<rparr>], totalLines = 1, estimatedPages = 1\<rparr>]
   \<and> elementAt [Some (units ''a.pdf''), Some (units ''b.pdf'')] 1 = Some (units ''b.pdf'')
   \<and> (units ''b.pdf'') \<noteq> []
   \<and> judgeFails exampleParse (exampleJudge 1 (judgePrompt (units ''a'')
         ([\<lparr>fullText = units ''a'', lines = [\<lparr>lineNumber = 1, content = units ''a'', estimatedPage = 1\<rparr>], totalLines = 1, estimatedPages = 1\<rparr>,
      \<lparr>fullText = units ''b'', lines = [\<lparr>lineNumber = 1, content = units ''b'', estimatedPage = 1\<rparr>], totalLines = 1, estimatedPages = 1\<rparr>] ! 1)))
   \<and> (\<exists>res. analyzeSkillsWithAI exampleLower (Some (Model exampleJudge)) exampleParse
          [\<lparr>fullText = units ''a'', lines = [\<lparr>lineNumber = 1, content = units ''a'', estimatedPage = 1\<rparr>], totalLines = 1, estimatedPages = 1\<rparr>,
      \<lparr>fullText = units ''b'', lines = [\<lparr>lineNumber = 1, content = units ''b'', estimatedPage = 1\<rparr>], totalLines = 1, estimatedPages = 1\<rparr>] (units ''a'') [Some (units ''a.pdf''), Some (units ''b.pdf'')] = Some res
        \<and> length res = length [\<lparr>fullText = units ''a'', lines = [\<lparr>lineNumber = 1, content = units ''a'', estimatedPage = 1\<rparr>], totalLines = 1, estimatedPages = 1\<rparr>,
      \<lparr>fullText = units ''b'', lines = [\<lparr>lineNumber = 1, content = units ''b'', estimatedPage = 1\<rparr>], totalLines = 1, estimatedPages = 1\<rparr>]
        \<and> res ! 1 = [\<lparr>fileName = units ''a.pdf'', eligible = JBool True, matchPercentage = JNum 100,
        matched = [\<lparr>skill = units ''a'',
                     occurrences = [\<lparr>o_lineNumber = 1, o_estimatedPage = 1, o_context = units ''a''\<rparr>],
                     totalOccurrences = 1\<rparr>],
        missing = [], summary = JStr (units ''Found 1/1 required skills''),
        r_totalLines = 1, r_estimatedPages = 1\<rparr>,
       \<lparr>fileName = units ''b.pdf'', eligible = JBool False, matchPercentage = JNum 0,
        matched = [], missing = [units ''a''], summary = JStr (units ''Found 0/1 required skills''),
        r_totalLines = 1, r_estimatedPages = 1\<rparr>] ! 1
        \<and> (\<forall>model'. (\<forall>j p. j \<noteq> 1 \<longrightarrow> model' j p = exampleJudge j p) \<longrightarrow>
              (\<exists>res'. analyzeSkillsWithAI exampleLower (Some (Model model')) exampleParse
                 [\<lparr>fullText = units ''a'', lines = [\<lparr>lineNumber = 1, content = units ''a'', estimatedPage = 1\<rparr>], totalLines = 1, estimatedPages = 1\<rparr>,
      \<lparr>fullText = units ''b'', lines = [\<lparr>lineNumber = 1, content = units ''b'', estimatedPage = 1\<rparr>], totalLines = 1, estimatedPages = 1\<rparr>] (units ''a'') [Some (units ''a.pdf''), Some (units ''b.pdf'')] = Some res'
               \<and> length res' = length [\<lparr>fullText = units ''a'', lines = [\<lparr>lineNumber = 1, content = units ''a'', estimatedPage = 1\<rparr>], totalLines = 1, estimatedPages = 1\<rparr>,
      \<lparr>fullText = units ''b'', lines = [\<lparr>lineNumber = 1, content = units ''b'', estimatedPage = 1\<rparr>], totalLines = 1, estimatedPages = 1\<rparr>]
               \<and> (\<forall>j < length [\<lparr>fullText = units ''a'', lines = [\<lparr>lineNumber = 1, content = units ''a'', estimatedPage = 1\<rparr>], totalLines = 1, estimatedPages = 1\<rparr>,
      \<lparr>fullText = units ''b'', lines = [\<lparr>lineNumber = 1, content = units ''b'', estimatedPage = 1\<rparr>], totalLines = 1, estimatedPages = 1\<rparr>]. j \<noteq> 1 \<longrightarrow> res' ! j = res ! j))))"
proof -
  have det: "analyzeSkills exampleLower
      [\<lparr>fullText = units ''a'', lines = [\<lparr>lineNumber = 1, content = units ''a'', estimatedPage = 1\<rparr>], totalLines = 1, estimatedPages = 1\<rparr>,
      \<lparr>fullText = units ''b'', lines = [\<lparr>lineNumber = 1, content = units ''b'', estimatedPage = 1\<rparr>], totalLines = 1, estimatedPages = 1\<rparr>] (units ''a'') [Some (units ''a.pdf''), Some (units ''b.pdf'')]
    = Some [\<lparr>fileName = units ''a.pdf'', eligible = JBool True, matchPercentage = JNum 100,
        matched = [\<lparr>skill = units ''a'',
                     occurrences = [\<lparr>o_lineNumber = 1, o_estimatedPage = 1, o_context = units ''a''\<rparr>],
                     totalOccurrences = 1\<rparr>],
        missing = [], summary = JStr (units ''Found 1/1 required skills''),
        r_totalLines = 1, r_estimatedPages = 1\<rparr>,
       \<lparr>fileName = units ''b.pdf'', eligible = JBool False, matchPercentage = JNum 0,
        matched = [], missing = [units ''a''], summary = JStr (units ''Found 0/1 required skills''),
        r_totalLines = 1, r_estimatedPages = 1\<rparr>]"
    by code_simp
  have i: "(1::nat) < length [\<lparr>fullText = units ''a'', lines = [\<lparr>lineNumber = 1, content = units ''a'', estimatedPage = 1\<rparr>], totalLines = 1, estimatedPages = 1\<rparr>,
      \<lparr>fullText = units ''b'', lines = [\<lparr>lineNumber = 1, content = units ''b'', estimatedPage = 1\<rparr>], totalLines = 1, estimatedPages = 1\<rparr>]" by simp
  have name: "elementAt [Some (units ''a.pdf''), Some (units ''b.pdf'')] 1 = Some (units ''b.pdf'')" by (simp add: elementAt_def)
  have ne: "(units ''b.pdf'') \<noteq> []" by code_simp
  have fails: "judgeFails exampleParse (exampleJudge 1 (judgePrompt (units ''a'')
         ([\<lparr>fullText = units ''a'', lines = [\<lparr>lineNumber = 1, content = units ''a'', estimatedPage = 1\<rparr>], totalLines = 1, estimatedPages = 1\<rparr>,
      \<lparr>fullText = units ''b'', lines = [\<lparr>lineNumber = 1, content = units ''b'', estimatedPage = 1\<rparr>], totalLines = 1, estimatedPages = 1\<rparr>] ! 1)))"
    by (simp add: judgeFails_def exampleJudge_def)
  from det i name ne fails judge_failure_falls_back
    [where model = exampleJudge and JSON_parse = exampleParse and i = 1, OF det i name ne fails]
  show ?thesis by (intro conjI)
qed

text \<open>
  C9. When \<^verbatim>\<open>genAI\<close> is \<^verbatim>\<open>null\<close>, \<^verbatim>\<open>analyzeSkillsWithAI\<close> is \<^verbatim>\<open>analyzeSkills\<close> on the same
  arguments: the same results in the same order, and no result where \<^verbatim>\<open>analyzeSkills\<close>
  gives none.
\<close>

theorem analyzeSkillsWithAI_without_client:
  "analyzeSkillsWithAI unicodeLower None JSON_parse resumeTexts requiredSkills fileNames
   = analyzeSkills unicodeLower resumeTexts requiredSkills fileNames"
  by (simp add: analyzeSkillsWithAI_def)

theorem analyzeSkillsWithAI_without_client_witness:
  "analyzeSkillsWithAI exampleLower None exampleParse
      [\<lparr>fullText = units ''a'', lines = [\<lparr>lineNumber = 1, content = units ''a'', estimatedPage = 1\<rparr>], totalLines = 1, estimatedPages = 1\<rparr>,
      \<lparr>fullText = units ''b'', lines = [\<lparr>lineNumber = 1, content = units ''b'', estimatedPage = 1\<rparr>], totalLines = 1, estimatedPages = 1\<rparr>] (units ''a'') [Some (units ''a.pdf''), Some (units ''b.pdf'')]
   = analyzeSkills exampleLower
      [\<lparr>fullText = units ''a'', lines = [\<lparr>lineNumber = 1, content = units ''a'', estimatedPage = 1\<rparr>], totalLines = 1, estimatedPages = 1\<rparr>,
      \<lparr>fullText = units ''b'', lines = [\<lparr>lineNumber = 1, content = units ''b'', estimatedPage = 1\<rparr>], totalLines = 1, estimatedPages = 1\<rparr>] (units ''a'') [Some (units ''a.pdf''), Some (units ''b.pdf'')]
   \<and> analyzeSkills exampleLower
      [\<lparr>fullText = units ''a'', lines = [\<lparr>lineNumber = 1, content = units ''a'', estimatedPage = 1\<rparr>], totalLines = 1, estimatedPages = 1\<rparr>,
      \<lparr>fullText = units ''b'', lines = [\<lparr>lineNumber = 1, content = units ''b'', estimatedPage = 1\<rparr>], totalLines = 1, estimatedPages = 1\<rparr>] (units ''a'') [Some (units ''a.pdf''), Some (units ''b.pdf'')]
    = Some [\<lparr>fileName = units ''a.pdf'', eligible = JBool True, matchPercentage = JNum 100,
        matched = [\<lparr>skill = units ''a'',
                     occurrences = [\<lparr>o_lineNumber = 1, o_estimatedPage = 1, o_context = units ''a''\<rparr>],
                     totalOccurrences = 1\<rparr>],
        missing = [], summary = JStr (units ''Found 1/1 required skills''),
        r_totalLines = 1, r_estimatedPages = 1\<rparr>,
       \<lparr>fileName = units ''b.pdf'', eligible = JBool False, matchPercentage = JNum 0,
        matched = [], missing = [units ''a''], summary = JStr (units ''Found 0/1 required skills''),
        r_totalLines = 1, r_estimatedPages = 1\<rparr>]"
proof -
  have "analyzeSkills exampleLower
      [\<lparr>fullText = units ''a'', lines = [\<lparr>lineNumber = 1, content = units ''a'', estimatedPage = 1\<rparr>], totalLines = 1, estimatedPages = 1\<rparr>,
      \<lparr>fullText = units ''b'', lines = [\<lparr>lineNumber = 1, content = units ''b'', estimatedPage = 1\<rparr>], totalLines = 1, estimatedPages = 1\<rparr>] (units ''a'') [Some (units ''a.pdf''), Some (units ''b.pdf'')]
    = Some [\<lparr>fileName = units ''a.pdf'', eligible = JBool True, matchPercentage = JNum 100,
        matched = [\<lparr>skill = units ''a'',
                     occurrences = [\<lparr>o_lineNumber = 1, o_estimatedPage = 1, o_context = units ''a''\<rparr>],
                     totalOccurrences = 1\<rparr>],
        missing = [], summary = JStr (units ''Found 1/1 required skills''),
        r_totalLines = 1, r_estimatedPages = 1\<rparr>,
       \<lparr>fileName = units ''b.pdf'', eligible = JBool False, matchPercentage = JNum 0,
        matched = [], missing = [units ''a''], summary = JStr (units ''Found 0/1 required skills''),
        r_totalLines = 1, r_estimatedPages = 1\<rparr>]"
    by code_simp
  with analyzeSkillsWithAI_without_client [of exampleLower exampleParse
      "[\<lparr>fullText = units ''a'', lines = [\<lparr>lineNumber = 1, content = units ''a'', estimatedPage = 1\<rparr>], totalLines = 1, estimatedPages = 1\<rparr>,
      \<lparr>fullText = units ''b'', lines = [\<lparr>lineNumber = 1, content = units ''b'', estimatedPage = 1\<rparr>], totalLines = 1, estimatedPages = 1\<rparr>]" "(units ''a'')" "[Some (units ''a.pdf''), Some (units ''b.pdf'')]"]
  show ?thesis by (intro conjI)
qed

section \<open>Extraction and the request handler\<close>

text \<open>
  \<^verbatim>\<open>extractTextWithLineNumbers\<close>. The PDF parser is a parameter: on a buffer it gives the
  text of the document (\<open>Inr\<close>) or throws an error with a message (\<open>Inl\<close>), which the
  function throws again under its own message.
\<close>

definition extractTextWithLineNumbers ::
  "(jstring \<Rightarrow> jstring + jstring) \<Rightarrow> jstring \<Rightarrow> jstring + StructuredText" where
  "extractTextWithLineNumbers pdf buffer =
     (case pdf buffer of
        Inl message \<Rightarrow> Inl ((units ''Failed to extract text from PDF: '') @ message)
      | Inr text \<Rightarrow>
          let ls = split 10 text;
              linesPerPage = 50;
              linesWithPages =
                map (\<lambda>(index, line).
                       \<lparr>lineNumber = index + 1,
                        content = trim line,
                        estimatedPage =
                          nat (Math_ceil (jsDivide (of_nat (index + 1)) linesPerPage))\<rparr>)
                    (enumerate 0 ls)
          in Inr \<lparr>fullText = text,
                  lines = linesWithPages,
                  totalLines = length ls,
                  estimatedPages = nat (Math_ceil (jsDivide (of_nat (length ls)) linesPerPage))\<rparr>)"

record UploadedFile =
  buffer :: jstring
  originalname :: jstring

record BatchReport =
  success :: bool
  totalResumes :: nat
  eligibleCount :: nat
  results :: "ResumeResult list"

text \<open>The responses of the handler: status 400 with an error text, status 500 with an
  error text and its details, or the report.\<close>

datatype response =
    Status400 jstring
  | Status500 jstring jstring
  | Json BatchReport

text \<open>The truth value of a value in a condition, as \<^verbatim>\<open>results.filter(r => r.eligible)\<close>
  takes it.\<close>

fun truthy :: "jsval \<Rightarrow> bool" where
  "truthy JUndefined = False"
| "truthy JNull = False"
| "truthy (JBool b) = b"
| "truthy (JNum x) = (x \<noteq> 0)"
| "truthy (JStr s) = (s \<noteq> [])"
| "truthy (JArr xs) = True"
| "truthy (JObj kvs) = True"

text \<open>The loop of lines 189 to 193; the first file that cannot be read ends it.\<close>

fun extractAll ::
  "(jstring \<Rightarrow> jstring + jstring) \<Rightarrow> UploadedFile list \<Rightarrow> StructuredText list
     \<Rightarrow> jstring option list \<Rightarrow> jstring + (StructuredText list \<times> jstring option list)" where
  "extractAll pdf [] resumeTexts fileNames = Inr (resumeTexts, fileNames)"
| "extractAll pdf (file # rest) resumeTexts fileNames =
     (case extractTextWithLineNumbers pdf (buffer file) of
        Inl message \<Rightarrow> Inl message
      | Inr textData \<Rightarrow>
          extractAll pdf rest (resumeTexts @ [textData])
            (fileNames @ [Some (originalname file)]))"

text \<open>
  The handler of \<^verbatim>\<open>POST /api/skills-check\<close>. \<^verbatim>\<open>req.files\<close> and \<^verbatim>\<open>req.body.skills\<close> are \<open>None\<close>
  when they are \<^verbatim>\<open>undefined\<close>. The result \<open>None\<close> means that no response is sent, because
  the analysis does not return.
\<close>

definition skillsCheck ::
  "(jstring \<Rightarrow> jstring) \<Rightarrow> gen_client option \<Rightarrow> (jstring \<Rightarrow> jsval option) \<Rightarrow> (jstring \<Rightarrow> jstring + jstring)
     \<Rightarrow> UploadedFile list option \<Rightarrow> jstring option \<Rightarrow> response option" where
  "skillsCheck unicodeLower genAI JSON_parse pdf files skills =
     (case files of
        None \<Rightarrow> Some (Status400 (units ''No resume files uploaded''))
      | Some fs \<Rightarrow>
          if length fs = 0 then Some (Status400 (units ''No resume files uploaded''))
          else (case skills of
             None \<Rightarrow> Some (Status400 (units ''Required skills not provided''))
           | Some sks \<Rightarrow>
               if sks = [] then Some (Status400 (units ''Required skills not provided''))
               else (case extractAll pdf fs [] [] of
                  Inl message \<Rightarrow> Some (Status500 (units ''Skills analysis failed'') message)
                | Inr (resumeTexts, fileNames) \<Rightarrow>
                    (case analyzeSkillsWithAI unicodeLower genAI JSON_parse resumeTexts sks fileNames of
                       None \<Rightarrow> None
                     | Some rs \<Rightarrow>
                         Some (Json \<lparr>success = True,
                                     totalResumes = length fs,
                                     eligibleCount = length (filter (\<lambda>r. truthy (eligible r)) rs),
                                     results = rs\<rparr>)))))"

subsection \<open>Extracted texts\<close>

lemma extractTextWithLineNumbers_lines:
  assumes "extractTextWithLineNumbers pdf buf = Inr textData"
  shows "lines textData \<noteq> []" and "length (lines textData) = totalLines textData"
  using assms
  by (auto simp: extractTextWithLineNumbers_def Let_def enumerate_eq_zip split: sum.splits)

section \<open>Properties of the request handler\<close>

text \<open>A parser of documents that takes the bytes of the file for its text.\<close>

definition plainTextPdf :: "jstring \<Rightarrow> jstring + jstring" where
  "plainTextPdf buf = Inr buf"

text \<open>
  C3, as stated, fails for a skills string of blanks: the check of line 180 only rejects
  a missing or empty string. With one uploaded resume and the skills \<^verbatim>\<open>"  "\<close> the request
  passes both checks, the skill list is the single empty skill, and the analysis never
  returns (see C1): no response is sent, in particular no status 400.
\<close>

theorem blank_skills_pass_validation:
  "skillsCheck exampleLower None exampleParse plainTextPdf
     (Some [\<lparr>buffer = units ''Python'', originalname = units ''cv.pdf''\<rparr>]) (Some (units ''  '')) = None"
proof -
  have ex: "extractTextWithLineNumbers plainTextPdf (units ''Python'')
            = Inr \<lparr>fullText = units ''Python'',
                    lines = [\<lparr>lineNumber = 1, content = units ''Python'', estimatedPage = 1\<rparr>],
                    totalLines = 1, estimatedPages = 1\<rparr>"
    by code_simp
  have sk: "skillsArrayOf (units ''  '') = [[]]" by code_simp
  have "analyzeSkills exampleLower
          [\<lparr>fullText = units ''Python'',
            lines = [\<lparr>lineNumber = 1, content = units ''Python'', estimatedPage = 1\<rparr>],
            totalLines = 1, estimatedPages = 1\<rparr>] (units ''  '') [Some (units ''cv.pdf'')] = None"
    by (simp add: analyzeSkills_def analyzeResume_def sk findSkillOccurrences_empty_skill)
  moreover have "units ''  '' \<noteq> []" by code_simp
  ultimately show ?thesis
    by (simp add: skillsCheck_def ex analyzeSkillsWithAI_def)
qed

text \<open>
  C3, amended. When no files are uploaded (\<^verbatim>\<open>req.files\<close> is missing or empty) or the skills
  string is missing or empty, the handler answers with status 400 and an error text, and
  produces no report.
\<close>

theorem skillsCheck_rejects_missing_input:
  assumes "files = None \<or> files = Some [] \<or> skills = None \<or> skills = Some []"
  shows "\<exists>message. skillsCheck unicodeLower genAI JSON_parse pdf files skills = Some (Status400 message)"
  using assms by (auto simp: skillsCheck_def split: option.splits)

theorem skillsCheck_rejects_missing_input_witness:
  "((Some [\<lparr>buffer = units ''Python'', originalname = units ''cv.pdf''\<rparr>] = None
     \<or> Some [\<lparr>buffer = units ''Python'', originalname = units ''cv.pdf''\<rparr>] = Some []
     \<or> Some ([] :: jstring) = None \<or> Some ([] :: jstring) = Some [])
   \<and> (\<exists>message. skillsCheck exampleLower None exampleParse plainTextPdf
          (Some [\<lparr>buffer = units ''Python'', originalname = units ''cv.pdf''\<rparr>]) (Some [])
        = Some (Status400 message)))
   \<and> skillsCheck exampleLower None exampleParse plainTextPdf
          (Some [\<lparr>buffer = units ''Python'', originalname = units ''cv.pdf''\<rparr>]) (Some [])
        = Some (Status400 (units ''Required skills not provided''))
   \<and> skillsCheck exampleLower None exampleParse plainTextPdf (Some []) (Some (units ''Python''))
        = Some (Status400 (units ''No resume files uploaded''))"
proof -
  have h: "Some [\<lparr>buffer = units ''Python'', originalname = units ''cv.pdf''\<rparr>] = None
     \<or> Some [\<lparr>buffer = units ''Python'', originalname = units ''cv.pdf''\<rparr>] = Some []
     \<or> Some ([] :: jstring) = None \<or> Some ([] :: jstring) = Some []"
    by simp
  have a: "\<exists>message. skillsCheck exampleLower None exampleParse plainTextPdf
          (Some [\<lparr>buffer = units ''Python'', originalname = units ''cv.pdf''\<rparr>]) (Some [])
        = Some (Status400 message)"
    by (rule skillsCheck_rejects_missing_input [OF h])
  have b: "skillsCheck exampleLower None exampleParse plainTextPdf
          (Some [\<lparr>buffer = units ''Python'', originalname = units ''cv.pdf''\<rparr>]) (Some [])
        = Some (Status400 (units ''Required skills not provided''))"
    by (simp add: skillsCheck_def)
  have c: "skillsCheck exampleLower None exampleParse plainTextPdf (Some []) (Some (units ''Python''))
        = Some (Status400 (units ''No resume files uploaded''))"
    by (simp add: skillsCheck_def)
  from h a b c show ?thesis by (intro conjI)
qed

end
